theory Spec2Isabelle
  imports Complex_Main "HOL-Library.AList"
begin

section \<open>Python values used by the dashboard\<close>

text \<open>
  Status and log text is modelled as \<^typ>\<open>string\<close>: a list of code points below 256
  (the Latin-1 range, which contains every character the dashboard itself writes into the
  status file).  Rendered frames contain box-drawing and block characters above that range,
  so rendered text is a list of code points, \<open>utext\<close>.  Python's integers are unbounded and
  are modelled as \<^typ>\<open>int\<close>; \<open>//\<close> on them is floor division, as \<open>div\<close> on \<^typ>\<open>int\<close>.
  Every exception the modelled code can raise is a value of \<open>error\<close>.
\<close>

datatype error = ValueError | ZeroDivisionError | OverflowError | PermissionError

type_synonym utext = "nat list"

definition u :: "string \<Rightarrow> utext" where
  "u s = map of_char s"

definition py_floordiv :: "int \<Rightarrow> int \<Rightarrow> error + int" where
  "py_floordiv a b = (if b = 0 then Inl ZeroDivisionError else Inr (a div b))"

text \<open>\<open>c * n\<close> for a one-character string \<open>c\<close>: the empty string when \<open>n\<close> is not positive.\<close>

definition py_repeat :: "'a \<Rightarrow> int \<Rightarrow> 'a list" where
  "py_repeat c n = replicate (nat n) c"

definition digit_char :: "nat \<Rightarrow> char" where
  "digit_char d = char_of (48 + d)"

fun digits_nat :: "nat \<Rightarrow> string" where
  "digits_nat n = (if n < 10 then [digit_char n]
                   else digits_nat (n div 10) @ [digit_char (n mod 10)])"

declare digits_nat.simps [simp del]

text \<open>The decimal text of an integer.\<close>

definition py_str_int :: "int \<Rightarrow> string" where
  "py_str_int n = (if n < 0 then CHR ''-'' # digits_nat (nat (- n)) else digits_nat (nat n))"

text \<open>\<open>f"{n:<w>d}"\<close>: right-aligned in a field of \<open>w\<close> characters, padded with spaces.\<close>

definition fmt_d :: "nat \<Rightarrow> int \<Rightarrow> string" where
  "fmt_d w n = (let s = py_str_int n in replicate (w - length s) CHR '' '' @ s)"

subsection \<open>String operations\<close>

definition LF :: char where "LF = CHR 0x0A"
definition CR :: char where "CR = CHR 0x0D"

text \<open>\<open>str.isspace\<close> on the code points below 256.\<close>

definition is_space :: "char \<Rightarrow> bool" where
  "is_space c = (let n = (of_char c :: nat)
                 in (9 \<le> n \<and> n \<le> 13) \<or> (28 \<le> n \<and> n \<le> 32) \<or> n = 133 \<or> n = 160)"

definition is_digit :: "char \<Rightarrow> bool" where
  "is_digit c = (let n = (of_char c :: nat) in 48 \<le> n \<and> n \<le> 57)"

definition digit_val :: "char \<Rightarrow> nat" where
  "digit_val c = of_char c - 48"

text \<open>\<open>s.strip()\<close>: leading and trailing whitespace removed.\<close>

definition py_strip :: "string \<Rightarrow> string" where
  "py_strip s = rev (dropWhile is_space (rev (dropWhile is_space s)))"

text \<open>\<open>s.split()\<close>: the maximal runs of non-whitespace characters, in order.\<close>

fun split_ws :: "string \<Rightarrow> string \<Rightarrow> string list" where
  "split_ws cur [] = (if cur = [] then [] else [cur])"
| "split_ws cur (c # cs) =
     (if is_space c then (if cur = [] then split_ws [] cs else cur # split_ws [] cs)
      else split_ws (cur @ [c]) cs)"

definition py_split :: "string \<Rightarrow> string list" where
  "py_split s = split_ws [] s"

text \<open>\<open>s.lower()\<close> on the code points below 256.\<close>

definition lower_char :: "char \<Rightarrow> char" where
  "lower_char c = (let n = (of_char c :: nat)
                   in if (65 \<le> n \<and> n \<le> 90) \<or> (192 \<le> n \<and> n \<le> 222 \<and> n \<noteq> 215)
                      then char_of (n + 32) else c)"

definition py_lower :: "string \<Rightarrow> string" where
  "py_lower s = map lower_char s"

text \<open>\<open>s.startswith(p)\<close> and \<open>sub in s\<close>.\<close>

definition starts_with :: "string \<Rightarrow> string \<Rightarrow> bool" where
  "starts_with p s = (take (length p) s = p)"

fun py_in :: "string \<Rightarrow> string \<Rightarrow> bool" where
  "py_in sub [] = (sub = [])"
| "py_in sub (c # cs) = (starts_with sub (c # cs) \<or> py_in sub cs)"

text \<open>
  \<open>int(s)\<close> for a string: surrounding whitespace is ignored, one sign is allowed, and the
  digits may be grouped by single underscores.  The whitespace that \<open>int\<close> and \<open>float\<close>
  ignore is the ASCII whitespace and the whitespace beyond ASCII, not the separators
  U+001C to U+001F that \<open>str.strip\<close> removes.  A string with more than
  \<open>sys.int_max_str_digits\<close> digits (4300 by default) is refused, and so is the conversion
  to text of an integer with more digits than that.  \<open>None\<close> stands for the
  \<open>ValueError\<close>.
\<close>

definition is_num_space :: "char \<Rightarrow> bool" where
  "is_num_space c = (let n = (of_char c :: nat)
                     in (9 \<le> n \<and> n \<le> 13) \<or> n = 32 \<or> n = 133 \<or> n = 160)"

definition num_strip :: "string \<Rightarrow> string" where
  "num_strip s = rev (dropWhile is_num_space (rev (dropWhile is_num_space s)))"

definition max_str_digits :: nat where
  "max_str_digits = 4300"

fun digit_groups :: "string \<Rightarrow> string option" where
  "digit_groups [] = None"
| "digit_groups [c] = (if is_digit c then Some [c] else None)"
| "digit_groups (c # d # r) =
     (if is_digit c
      then (if d = CHR ''_'' then map_option (Cons c) (digit_groups r)
            else map_option (Cons c) (digit_groups (d # r)))
      else None)"

definition digits_value :: "string \<Rightarrow> nat" where
  "digits_value ds = foldl (\<lambda>a c. 10 * a + digit_val c) 0 ds"

definition split_sign :: "string \<Rightarrow> bool \<times> string" where
  "split_sign t = (case t of
                     [] \<Rightarrow> (False, [])
                   | c # r \<Rightarrow> if c = CHR ''-'' then (True, r)
                             else if c = CHR ''+'' then (False, r) else (False, t))"

definition py_int :: "string \<Rightarrow> int option" where
  "py_int s = (let (neg, body) = split_sign (num_strip s) in
               case digit_groups body of
                 None \<Rightarrow> None
               | Some ds \<Rightarrow>
                   if max_str_digits < length ds then None
                   else Some (if neg then - int (digits_value ds) else int (digits_value ds)))"

text \<open>\<open>str(n)\<close> as a call, with its limit on the number of digits.\<close>

definition py_str :: "int \<Rightarrow> error + string" where
  "py_str n = (if max_str_digits < length (digits_nat (nat \<bar>n\<bar>)) then Inl ValueError
               else Inr (py_str_int n))"

subsection \<open>Floating-point numbers\<close>

text \<open>
  A Python \<open>float\<close> is an IEEE 754 binary64 number: a finite value, which is a rational
  number, or an infinity, or a NaN.  \<open>Fin 0\<close> is the positive zero and \<open>NZero\<close> the
  negative zero; the two compare equal and print differently.  \<open>to_double\<close> rounds a
  rational to the nearest representable value, ties to the even significand, with gradual
  underflow and with overflow to an infinity, as the conversion of a decimal literal and
  every arithmetic operation do.
\<close>

datatype pyfloat = Fin rat | NZero | PInf | NInf | NaN

definition pow2 :: "int \<Rightarrow> rat" where
  "pow2 e = (if 0 \<le> e then 2 ^ nat e else 1 / 2 ^ nat (- e))"

definition round_half_even :: "rat \<Rightarrow> int" where
  "round_half_even y = (let f = \<lfloor>y\<rfloor>; d = y - of_int f
                        in if d < 1 / 2 then f
                           else if 1 / 2 < d then f + 1
                           else if even f then f else f + 1)"

fun flog2 :: "nat \<Rightarrow> nat" where
  "flog2 n = (if n < 2 then 0 else Suc (flog2 (n div 2)))"

declare flog2.simps [simp del]

text \<open>For \<open>a > 0\<close>, the exponent \<open>e\<close> with \<open>2 ^ e \<le> a < 2 ^ (e + 1)\<close>.\<close>

definition ilog2 :: "rat \<Rightarrow> int" where
  "ilog2 a = (let (p, q) = quotient_of a;
                  k = int (flog2 (nat p)) - int (flog2 (nat q))
              in if pow2 k \<le> a then k else k - 1)"

text \<open>
  The exponent of the binade of \<open>a\<close>, not below that of the subnormal numbers, and \<open>a\<close>
  rounded to a multiple of the spacing \<open>2 ^ (e - 52)\<close> of that binade.
\<close>

definition dexp :: "rat \<Rightarrow> int" where
  "dexp a = max (ilog2 a) (- 1022)"

definition round_mag :: "rat \<Rightarrow> rat" where
  "round_mag a = (let q = pow2 (dexp a - 52)
                  in of_int (round_half_even (a / q)) * q)"

definition to_double :: "rat \<Rightarrow> pyfloat" where
  "to_double x = (if x = 0 then Fin 0
                  else if 0 < x
                  then (if pow2 1024 \<le> round_mag x then PInf else Fin (round_mag x))
                  else (if pow2 1024 \<le> round_mag (- x) then NInf
                        else if round_mag (- x) = 0 then NZero
                        else Fin (- round_mag (- x))))"

text \<open>Negation, and the value with which a float takes part in a comparison.\<close>

fun fneg :: "pyfloat \<Rightarrow> pyfloat" where
  "fneg (Fin r) = (if r = 0 then NZero else Fin (- r))"
| "fneg NZero = Fin 0"
| "fneg PInf = NInf"
| "fneg NInf = PInf"
| "fneg NaN = NaN"

fun nz :: "pyfloat \<Rightarrow> pyfloat" where
  "nz NZero = Fin 0"
| "nz x = x"

text \<open>The comparisons \<open>a > b\<close> and \<open>a <= b\<close>: false whenever a NaN is involved.\<close>

fun ord_gt :: "pyfloat \<Rightarrow> pyfloat \<Rightarrow> bool" where
  "ord_gt NaN _ = False"
| "ord_gt _ NaN = False"
| "ord_gt (Fin x) (Fin y) = (y < x)"
| "ord_gt PInf PInf = False"
| "ord_gt PInf _ = True"
| "ord_gt _ PInf = False"
| "ord_gt NInf _ = False"
| "ord_gt (Fin x) NInf = True"
| "ord_gt _ _ = False"

definition py_gt :: "pyfloat \<Rightarrow> pyfloat \<Rightarrow> bool" where
  "py_gt a b = ord_gt (nz a) (nz b)"

fun ord_le :: "pyfloat \<Rightarrow> pyfloat \<Rightarrow> bool" where
  "ord_le NaN _ = False"
| "ord_le _ NaN = False"
| "ord_le (Fin x) (Fin y) = (x \<le> y)"
| "ord_le NInf _ = True"
| "ord_le _ PInf = True"
| "ord_le PInf _ = False"
| "ord_le (Fin x) NInf = False"
| "ord_le _ _ = False"

definition py_le :: "pyfloat \<Rightarrow> pyfloat \<Rightarrow> bool" where
  "py_le a b = ord_le (nz a) (nz b)"

text \<open>The finite values that are binary64 numbers.\<close>

definition is_double :: "rat \<Rightarrow> bool" where
  "is_double x = (to_double x = Fin x)"

text \<open>
  Arithmetic.  The product and the quotient are the exact results rounded.  Division by a
  zero raises \<open>ZeroDivisionError\<close>.  The results of these operations are only compared
  and truncated by the dashboard, so the sign of a zero result is not tracked.
\<close>

definition is_zero :: "pyfloat \<Rightarrow> bool" where
  "is_zero x = (nz x = Fin 0)"

definition is_inf :: "pyfloat \<Rightarrow> bool" where
  "is_inf x = (x = PInf \<or> x = NInf)"

fun is_negative :: "pyfloat \<Rightarrow> bool" where
  "is_negative (Fin r) = (r < 0)"
| "is_negative NZero = True"
| "is_negative NInf = True"
| "is_negative _ = False"

fun fin_part :: "pyfloat \<Rightarrow> rat" where
  "fin_part (Fin r) = r"
| "fin_part _ = 0"

definition fmul :: "pyfloat \<Rightarrow> pyfloat \<Rightarrow> pyfloat" where
  "fmul a b =
     (if a = NaN \<or> b = NaN then NaN
      else if is_inf a \<or> is_inf b
      then (if is_zero a \<or> is_zero b then NaN
            else if is_negative a = is_negative b then PInf else NInf)
      else to_double (fin_part a * fin_part b))"

definition fdiv :: "pyfloat \<Rightarrow> pyfloat \<Rightarrow> error + pyfloat" where
  "fdiv a b =
     (if is_zero b then Inl ZeroDivisionError
      else if a = NaN \<or> b = NaN then Inr NaN
      else if is_inf a
      then (if is_inf b then Inr NaN
            else if is_negative a = is_negative b then Inr PInf else Inr NInf)
      else if is_inf b then Inr (Fin 0)
      else Inr (to_double (fin_part a / fin_part b)))"

text \<open>
  \<open>int(x)\<close> of a float truncates towards zero; it raises \<open>ValueError\<close> for a NaN and
  \<open>OverflowError\<close> for an infinity.  An integer that takes part in float arithmetic is
  converted first, which raises \<open>OverflowError\<close> when it is too large.
\<close>

definition int_of_float :: "pyfloat \<Rightarrow> error + int" where
  "int_of_float x = (case x of
                       NaN \<Rightarrow> Inl ValueError
                     | PInf \<Rightarrow> Inl OverflowError
                     | NInf \<Rightarrow> Inl OverflowError
                     | NZero \<Rightarrow> Inr 0
                     | Fin r \<Rightarrow> Inr (if 0 \<le> r then \<lfloor>r\<rfloor> else \<lceil>r\<rceil>))"

definition float_of_int :: "int \<Rightarrow> error + pyfloat" where
  "float_of_int n = (if is_inf (to_double (of_int n)) then Inl OverflowError
                     else Inr (to_double (of_int n)))"

text \<open>
  \<open>float(s)\<close> for a string: surrounding whitespace is ignored as by \<open>int\<close>; an underscore
  must stand between two digits; after one optional sign come \<open>inf\<close>, \<open>infinity\<close> or
  \<open>nan\<close> in any capitalisation, or a decimal number with an optional fraction and an
  optional exponent.  \<open>None\<close> stands for the \<open>ValueError\<close>.
\<close>

fun underscores_ok :: "char option \<Rightarrow> string \<Rightarrow> bool" where
  "underscores_ok prev [] = True"
| "underscores_ok prev (c # cs) =
     ((if c = CHR ''_''
       then (case prev of Some p \<Rightarrow> is_digit p | None \<Rightarrow> False)
            \<and> (case cs of d # _ \<Rightarrow> is_digit d | [] \<Rightarrow> False)
       else True)
      \<and> underscores_ok (Some c) cs)"

definition is_exp_char :: "char \<Rightarrow> bool" where
  "is_exp_char c = (c = CHR ''e'' \<or> c = CHR ''E'')"

definition pow10 :: "int \<Rightarrow> rat" where
  "pow10 e = (if 0 \<le> e then 10 ^ nat e else 1 / 10 ^ nat (- e))"

definition parse_exponent :: "string \<Rightarrow> int option" where
  "parse_exponent s =
     (case s of
        [] \<Rightarrow> Some 0
      | _ # r \<Rightarrow> (let (neg, ds) = split_sign r in
                  if ds \<noteq> [] \<and> list_all is_digit ds
                  then Some (if neg then - int (digits_value ds) else int (digits_value ds))
                  else None))"

definition parse_decimal :: "string \<Rightarrow> rat option" where
  "parse_decimal body =
     (let mant = takeWhile (\<lambda>c. \<not> is_exp_char c) body;
          ip = takeWhile (\<lambda>c. c \<noteq> CHR ''.'') mant;
          fp = (case dropWhile (\<lambda>c. c \<noteq> CHR ''.'') mant of [] \<Rightarrow> [] | _ # r \<Rightarrow> r)
      in if ip @ fp \<noteq> [] \<and> list_all is_digit (ip @ fp)
         then (case parse_exponent (dropWhile (\<lambda>c. \<not> is_exp_char c) body) of
                 None \<Rightarrow> None
               | Some e \<Rightarrow> Some (of_nat (digits_value (ip @ fp)) / 10 ^ length fp * pow10 e))
         else None)"

definition py_float :: "string \<Rightarrow> pyfloat option" where
  "py_float s =
     (let t = num_strip s in
      if \<not> underscores_ok None t then None
      else (let (neg, body) = split_sign (filter (\<lambda>c. c \<noteq> CHR ''_'') t);
                low = py_lower body
            in if low = ''inf'' \<or> low = ''infinity'' then Some (if neg then NInf else PInf)
               else if low = ''nan'' then Some NaN
               else (case parse_decimal body of
                       None \<Rightarrow> None
                     | Some v \<Rightarrow> Some (if neg then fneg (to_double v) else to_double v))))"

text \<open>
  \<open>f"{x:.<p>f}"\<close>: the value rounded to \<open>p\<close> decimals, ties to the even digit, with the
  sign of the value in front and no point when \<open>p\<close> is zero; \<open>f"{x:<w>.<p>f}"\<close> is that
  text right-aligned in \<open>w\<close> columns.
\<close>

definition frac_digits :: "nat \<Rightarrow> nat \<Rightarrow> string" where
  "frac_digits p k = (let s = digits_nat k in replicate (p - length s) CHR ''0'' @ s)"

definition fmt_f :: "nat \<Rightarrow> pyfloat \<Rightarrow> string" where
  "fmt_f p x =
     (case x of
        NaN \<Rightarrow> ''nan''
      | PInf \<Rightarrow> ''inf''
      | NInf \<Rightarrow> ''-inf''
      | NZero \<Rightarrow> ''-0'' @ (if p = 0 then '''' else ''.'' @ replicate p CHR ''0'')
      | Fin r \<Rightarrow> (let t = nat (round_half_even (\<bar>r\<bar> * 10 ^ p))
                  in (if r < 0 then ''-'' else '''')
                     @ digits_nat (t div 10 ^ p)
                     @ (if p = 0 then '''' else ''.'' @ frac_digits p (t mod 10 ^ p))))"

definition rjust :: "nat \<Rightarrow> string \<Rightarrow> string" where
  "rjust w s = replicate (w - length s) CHR '' '' @ s"

text \<open>The value that \<open>fmt_f 1\<close> prints: \<open>x\<close> rounded to one decimal.\<close>

definition round_tenth :: "rat \<Rightarrow> rat" where
  "round_tenth x = (if x < 0 then - (of_int (round_half_even (\<bar>x\<bar> * 10)) / 10)
                    else of_int (round_half_even (\<bar>x\<bar> * 10)) / 10)"

text \<open>
  Decimal text with exactly one digit after the point, as \<open>fmt_f 1\<close> prints a finite value,
  or the \<open>0\<close> that \<open>init_status\<close> writes.
\<close>

definition one_decimal :: "string \<Rightarrow> bool" where
  "one_decimal s =
     (s = ''0'' \<or>
      (let b = (case s of [] \<Rightarrow> [] | c # r \<Rightarrow> if c = CHR ''-'' then r else s);
           ip = takeWhile (\<lambda>c. c \<noteq> CHR ''.'') b
       in ip \<noteq> [] \<and> list_all is_digit ip
          \<and> (case dropWhile (\<lambda>c. c \<noteq> CHR ''.'') b of
                [_, d] \<Rightarrow> is_digit d
              | _ \<Rightarrow> False)))"

subsection \<open>Dictionaries\<close>

text \<open>
  A \<open>Dict[str, str]\<close> keeps its keys in insertion order; assigning to a key that is
  present replaces the value in place, assigning to a new key appends it.
\<close>

type_synonym status = "(string \<times> string) list"

definition dict_set :: "string \<Rightarrow> string \<Rightarrow> status \<Rightarrow> status" where
  "dict_set k v d = AList.update k v d"

definition dict_get :: "status \<Rightarrow> string \<Rightarrow> string \<Rightarrow> string" where
  "dict_get d k dflt = (case map_of d k of None \<Rightarrow> dflt | Some v \<Rightarrow> v)"

section \<open>Status file functions\<close>

text \<open>
  The status file is either absent, or readable with some text, or it exists and reading
  it raises after the given text has been delivered (\<open>Failing []\<close> is a file that cannot
  be opened).  A file opened in text mode translates \<open>\r\n\<close> and \<open>\r\<close> to \<open>\n\<close> and
  is iterated line by line, each line keeping its terminating \<open>\n\<close>.  Writes are followed
  along the runs where they succeed, and so are the calls made by \<open>update_status\<close> and
  the classification: along the runs where the path of the status file can be examined.
\<close>

datatype sfile = Absent | Readable string | Failing string

fun univ_newlines :: "string \<Rightarrow> string" where
  "univ_newlines (c # d # cs) =
     (if c = CR \<and> d = LF then LF # univ_newlines cs
      else if c = CR then LF # univ_newlines (d # cs)
      else c # univ_newlines (d # cs))"
| "univ_newlines [c] = (if c = CR then [LF] else [c])"
| "univ_newlines [] = []"

fun file_lines :: "string \<Rightarrow> string list" where
  "file_lines [] = []"
| "file_lines (c # cs) =
     (if c = LF then [LF] # file_lines cs
      else (case file_lines cs of [] \<Rightarrow> [[c]] | l # ls \<Rightarrow> (c # l) # ls))"

text \<open>The body of the loop of \<open>read_status\<close>, lines 182--185.\<close>

definition parse_line :: "status \<Rightarrow> string \<Rightarrow> status" where
  "parse_line st raw =
     (let line = py_strip raw in
      if CHR ''='' \<in> set line
      then dict_set (takeWhile (\<lambda>c. c \<noteq> CHR ''='') line)
                    (tl (dropWhile (\<lambda>c. c \<noteq> CHR ''='') line)) st
      else st)"

definition read_text :: "string \<Rightarrow> status" where
  "read_text s = foldl parse_line [] (file_lines (univ_newlines s))"

fun read_status :: "sfile \<Rightarrow> status" where
  "read_status Absent = []"
| "read_status (Readable s) = read_text s"
| "read_status (Failing s) = read_text s"

text \<open>
  \<open>read_status\<close> above is the function from the point where \<open>STATUS_FILE.exists()\<close> has
  answered.  That test stands before the \<open>try\<close>: when the path cannot be examined (a
  directory on the way denies search permission) it raises, and the exception leaves
  \<open>read_status\<close>.  \<open>read_status_at\<close> is the whole call, from the state of the path.
\<close>

datatype path_state = Denied | Examined sfile

fun read_status_at :: "path_state \<Rightarrow> error + status" where
  "read_status_at Denied = Inl PermissionError"
| "read_status_at (Examined f) = Inr (read_status f)"

definition status_text :: "status \<Rightarrow> string" where
  "status_text d = concat (map (\<lambda>(k, v). k @ ''='' @ v @ [LF]) d)"

definition write_status :: "status \<Rightarrow> sfile" where
  "write_status d = Readable (status_text d)"

definition update_status :: "string \<Rightarrow> string \<Rightarrow> sfile \<Rightarrow> sfile" where
  "update_status k v f = write_status (dict_set k v (read_status f))"

text \<open>
  \<open>init_status(mode, total_parts)\<close>; \<open>now\<close> is \<open>int(time.time())\<close> and \<open>log_path\<close> is
  the path of \<open>logs/current.log\<close> under the script directory.
\<close>

definition init_status :: "string \<Rightarrow> int \<Rightarrow> int \<Rightarrow> string \<Rightarrow> error + sfile" where
  "init_status mode total_parts now log_path =
     (case py_str now of
        Inl e \<Rightarrow> Inl e
      | Inr start_time \<Rightarrow>
     (case py_str total_parts of
        Inl e \<Rightarrow> Inl e
      | Inr parts_text \<Rightarrow>
          Inr (write_status
            [(''MODE'', mode), (''STAGE'', ''initializing''), (''PART'', []), (''STEP'', []),
             (''START_TIME'', start_time), (''TOTAL_PARTS'', parts_text),
             (''COMPLETED_PARTS'', ''0''), (''CURRENT_CONSTRAINTS'', ''0''),
             (''PEAK_MEMORY'', ''0''), (''ERRORS'', ''0''), (''WARNINGS'', ''0''),
             (''LOG_FILE'', log_path)])))"

subsection \<open>Well-formed entries and files given by their lines\<close>

text \<open>
  An entry \<open>(k, v)\<close> is written as the line \<open>k=v\<close>.  Reading that line back gives the
  same entry when the key has no \<open>=\<close>, neither part has a line break, and stripping the
  line removes nothing: the key does not start and the value does not end with whitespace.
\<close>

definition wf_entry :: "string \<Rightarrow> string \<Rightarrow> bool" where
  "wf_entry k v = (CHR ''='' \<notin> set k \<and> LF \<notin> set (k @ v) \<and> CR \<notin> set (k @ v)
                   \<and> (k = [] \<or> \<not> is_space (hd k)) \<and> (v = [] \<or> \<not> is_space (last v)))"

definition wf_status :: "status \<Rightarrow> bool" where
  "wf_status d = (distinct (map fst d) \<and> list_all (\<lambda>(k, v). wf_entry k v) d)"

text \<open>The text of a file whose lines are \<open>ls\<close>, each terminated by a line feed.\<close>

definition lines_text :: "string list \<Rightarrow> string" where
  "lines_text ls = concat (map (\<lambda>l. l @ [LF]) ls)"

definition plain_line :: "string \<Rightarrow> bool" where
  "plain_line l = (LF \<notin> set l \<and> CR \<notin> set l)"

text \<open>The key under which \<open>read_status\<close> stores a line, if it stores it at all.\<close>

definition line_key :: "string \<Rightarrow> string option" where
  "line_key raw = (let line = py_strip raw in
                   if CHR ''='' \<in> set line then Some (takeWhile (\<lambda>c. c \<noteq> CHR ''='') line)
                   else None)"

text \<open>The conditions of \<open>wf_entry\<close> on the key alone.\<close>

definition key_ok :: "string \<Rightarrow> bool" where
  "key_ok k = (CHR ''='' \<notin> set k \<and> LF \<notin> set k \<and> CR \<notin> set k \<and> (k = [] \<or> \<not> is_space (hd k)))"

text \<open>
  \<open>f"{n:02d}"\<close> (zero padding after the sign), \<open>f"{n:,}"\<close> (thousands separators),
  \<open>f"{s:<2}"\<close> (left-aligned in two columns) and \<open>sep.join(lines)\<close>.
\<close>

definition fmt_02d :: "int \<Rightarrow> string" where
  "fmt_02d n = (if n < 0
                then (let s = digits_nat (nat (- n)) in CHR ''-'' # replicate (1 - length s) CHR ''0'' @ s)
                else (let s = digits_nat (nat n) in replicate (2 - length s) CHR ''0'' @ s))"

fun group3 :: "string \<Rightarrow> string" where
  "group3 (a # b # c # d # r) = a # b # c # CHR '','' # group3 (d # r)"
| "group3 r = r"

definition fmt_comma :: "int \<Rightarrow> string" where
  "fmt_comma n = (if n < 0 then ''-'' else '''') @ rev (group3 (rev (digits_nat (nat \<bar>n\<bar>))))"

definition ljust :: "nat \<Rightarrow> string \<Rightarrow> string" where
  "ljust w s = s @ replicate (w - length s) CHR '' ''"

fun py_join :: "'a list \<Rightarrow> 'a list list \<Rightarrow> 'a list" where
  "py_join sep [] = []"
| "py_join sep [l] = l"
| "py_join sep (l # m # ls) = l @ sep @ py_join sep (m # ls)"

subsection \<open>Colours and box-drawing characters\<close>

definition ESC :: char where "ESC = CHR 0x1B"

definition RED :: utext where "RED = u (ESC # ''[0;31m'')"
definition GREEN :: utext where "GREEN = u (ESC # ''[0;32m'')"
definition YELLOW :: utext where "YELLOW = u (ESC # ''[1;33m'')"
definition CYAN :: utext where "CYAN = u (ESC # ''[0;36m'')"
definition MAGENTA :: utext where "MAGENTA = u (ESC # ''[0;35m'')"
definition WHITE :: utext where "WHITE = u (ESC # ''[1;37m'')"
definition GRAY :: utext where "GRAY = u (ESC # ''[0;90m'')"
definition NC :: utext where "NC = u (ESC # ''[0m'')"
definition BOLD :: utext where "BOLD = u (ESC # ''[1m'')"

definition BOX_H :: nat where "BOX_H = 0x2500"
definition BOX_V :: nat where "BOX_V = 0x2502"
definition BOX_DR :: nat where "BOX_DR = 0x250C"
definition BOX_DL :: nat where "BOX_DL = 0x2510"
definition BOX_UR :: nat where "BOX_UR = 0x2514"
definition BOX_UL :: nat where "BOX_UL = 0x2518"
definition BOX_DH :: nat where "BOX_DH = 0x252C"
definition BOX_UH :: nat where "BOX_UH = 0x2534"
definition CHECK_MARK :: nat where "CHECK_MARK = 0x2713"
definition BLACK_CIRCLE :: nat where "BLACK_CIRCLE = 0x25CF"
definition WHITE_CIRCLE :: nat where "WHITE_CIRCLE = 0x25CB"

text \<open>The left border (white, U+2502, reset) that starts every panel line.\<close>

definition border :: utext where
  "border = WHITE @ [BOX_V] @ NC"

section \<open>UI drawing functions\<close>

definition FULL_BLOCK :: nat where "FULL_BLOCK = 0x2588"
definition LIGHT_SHADE :: nat where "LIGHT_SHADE = 0x2591"
definition MEDIUM_SHADE :: nat where "MEDIUM_SHADE = 0x2593"

text \<open>
  \<open>draw_progress_bar(current, total, width)\<close>, lines 231--239: a zero total is replaced
  by one, then the percentage and the number of filled cells are floor quotients.
\<close>

definition draw_progress_bar :: "int \<Rightarrow> int \<Rightarrow> int \<Rightarrow> error + utext" where
  "draw_progress_bar current total0 width =
     (let total = (if total0 = 0 then 1 else total0) in
      case py_floordiv (current * 100) total of
        Inl e \<Rightarrow> Inl e
      | Inr percent \<Rightarrow>
         (case py_floordiv (current * width) total of
            Inl e \<Rightarrow> Inl e
          | Inr filled \<Rightarrow>
             (let empty = width - filled;
                  bar = py_repeat FULL_BLOCK filled @ py_repeat LIGHT_SHADE empty
              in Inr (u ''['' @ bar @ u ''] '' @ u (fmt_d 3 percent) @ u ''%''))))"

text \<open>\<open>format_duration(seconds)\<close>, lines 255--260.\<close>

definition format_duration :: "int \<Rightarrow> string" where
  "format_duration seconds =
     (let hours = seconds div 3600;
          mins = (seconds mod 3600) div 60;
          secs = seconds mod 60
      in fmt_02d hours @ '':'' @ fmt_02d mins @ '':'' @ fmt_02d secs)"

section \<open>Dashboard sections\<close>

text \<open>
  \<open>draw_compilation_progress(status)\<close>, lines 338--416; \<open>now\<close> is \<open>int(time.time())\<close>.
  The three \<open>int\<close> calls at its head are not guarded; the one on the constraints, further
  down, is inside \<open>try\<close>/\<open>except ValueError\<close>.
\<close>

definition part_names :: "string list" where
  "part_names = [''1A'', ''1B'', ''1C'', ''1D'', ''1E'', ''2'', ''3A'', ''3B'']"

definition part_symbol :: "int \<Rightarrow> string \<Rightarrow> nat \<Rightarrow> utext" where
  "part_symbol completed_parts part i =
     (if int i + 1 < completed_parts then GREEN @ [CHECK_MARK] @ NC
      else if int i + 1 = completed_parts \<and> part \<noteq> [] then YELLOW @ [BLACK_CIRCLE] @ NC
      else GRAY @ [WHITE_CIRCLE] @ NC)"

definition parts_row :: "int \<Rightarrow> string \<Rightarrow> utext" where
  "parts_row completed_parts part =
     foldl (\<lambda>row (i, p). row @ u '' '' @ part_symbol completed_parts part i @ u '' ''
                              @ u (ljust 2 p) @ u '' '' @ [BOX_V])
           (border @ u ''  '' @ [BOX_V])
           (enumerate 0 part_names)"

definition activity_lines :: "string \<Rightarrow> string \<Rightarrow> string \<Rightarrow> string \<Rightarrow> utext list" where
  "activity_lines stage part step constraints =
     (if stage \<noteq> [] \<and> stage \<noteq> ''idle'' \<and> stage \<noteq> ''complete''
      then [border @ u ''  '' @ BOLD @ u ''Current Activity:'' @ NC,
            border @ u ''    Stage: '' @ CYAN @ u stage @ NC]
           @ (if part \<noteq> [] then [border @ u ''    Part:  '' @ YELLOW @ u part @ NC] else [])
           @ (if step \<noteq> [] then [border @ u ''    Step:  '' @ WHITE @ u step @ NC] else [])
           @ (if constraints \<noteq> [] \<and> constraints \<noteq> ''0''
              then (case py_int constraints of
                      Some n \<Rightarrow> [border @ u ''    Constraints: '' @ MAGENTA @ u (fmt_comma n) @ NC]
                    | None \<Rightarrow> [])
              else [])
      else if stage = ''complete''
      then [border @ u ''  '' @ GREEN @ BOLD @ [CHECK_MARK] @ u '' COMPILATION COMPLETE'' @ NC]
      else [border @ u ''  '' @ GRAY @ u ''Waiting for compilation to start...'' @ NC])"

definition draw_compilation_progress :: "status \<Rightarrow> int \<Rightarrow> error + utext" where
  "draw_compilation_progress status now =
     (let stage = dict_get status ''STAGE'' ''idle'';
          part = dict_get status ''PART'' '''';
          step = dict_get status ''STEP'' ''''
      in case py_int (dict_get status ''TOTAL_PARTS'' ''8'') of
           None \<Rightarrow> Inl ValueError
         | Some total_parts \<Rightarrow>
      (case py_int (dict_get status ''COMPLETED_PARTS'' ''0'') of
           None \<Rightarrow> Inl ValueError
         | Some completed_parts \<Rightarrow>
      (case py_int (dict_get status ''START_TIME'' ''0'') of
           None \<Rightarrow> Inl ValueError
         | Some start_time \<Rightarrow>
      (let constraints = dict_get status ''CURRENT_CONSTRAINTS'' ''0'' in
       case draw_progress_bar completed_parts total_parts 50 of
           Inl e \<Rightarrow> Inl e
         | Inr progress_bar \<Rightarrow>
             Inr (py_join [10]
               ([[],
                 WHITE @ BOLD @ [BOX_DR, BOX_H] @ u '' COMPILATION PROGRESS ''
                   @ replicate 46 BOX_H @ [BOX_DL] @ NC,
                 border,
                 border @ u ''  Overall '' @ progress_bar,
                 border,
                 border @ u ''  '' @ BOLD @ u ''Parts Status:'' @ NC,
                 border @ u ''  '' @ [BOX_DR] @ concat (replicate 7 (replicate 6 BOX_H @ [BOX_DH]))
                   @ replicate 6 BOX_H @ [BOX_DL],
                 parts_row completed_parts part,
                 border @ u ''  '' @ [BOX_UR] @ concat (replicate 7 (replicate 6 BOX_H @ [BOX_UH]))
                   @ replicate 6 BOX_H @ [BOX_UL],
                 border]
                @ activity_lines stage part step constraints
                @ [border]
                @ (if start_time > 0
                   then [border @ u ''  '' @ BOLD @ u ''Elapsed:'' @ NC @ u '' ''
                           @ u (format_duration (now - start_time))]
                   else [])
                @ [border, WHITE @ [BOX_UR] @ replicate 69 BOX_H @ [BOX_UL] @ NC]))))))"

text \<open>
  The sampled system metrics: the results of \<open>get_cpu_usage()\<close>, \<open>get_memory_info()\<close>,
  \<open>get_swap_info()\<close> and \<open>get_load_average()\<close>.
\<close>

record metrics =
  cpu :: pyfloat
  mem_used :: pyfloat
  mem_total :: pyfloat
  swap_used :: pyfloat
  swap_total :: pyfloat
  load_avg :: pyfloat

text \<open>\<open>get_color_for_percent(percent, warn, crit)\<close>, lines 263--269.\<close>

definition get_color_for_percent :: "pyfloat \<Rightarrow> int \<Rightarrow> int \<Rightarrow> utext" where
  "get_color_for_percent percent warn crit =
     (if py_gt percent (Fin (of_int crit)) then RED
      else if py_gt percent (Fin (of_int warn)) then YELLOW
      else GREEN)"

text \<open>
  \<open>draw_metric_bar(value, max_val, width, color)\<close>, lines 242--252.  The truncation
  \<open>int(value * width / max_val)\<close> raises for a NaN and for an infinity.
\<close>

definition draw_metric_bar :: "pyfloat \<Rightarrow> pyfloat \<Rightarrow> int \<Rightarrow> utext \<Rightarrow> error + utext" where
  "draw_metric_bar val max_val0 width color =
     (let max_val = (if is_zero max_val0 then Fin 1 else max_val0) in
      case float_of_int width of
        Inl e \<Rightarrow> Inl e
      | Inr w \<Rightarrow>
      (case fdiv (fmul val w) max_val of
        Inl e \<Rightarrow> Inl e
      | Inr q \<Rightarrow>
      (case int_of_float q of
        Inl e \<Rightarrow> Inl e
      | Inr filled0 \<Rightarrow>
          (let filled = min filled0 width;
               empty = width - filled;
               bar = py_repeat MEDIUM_SHADE filled @ py_repeat LIGHT_SHADE empty
           in Inr (if color \<noteq> [] then color @ bar @ NC else bar)))))"

text \<open>
  \<open>(used / total * 100) if total > 0 else 0\<close>, the percentage of memory and of swap.
\<close>

definition percent_of :: "pyfloat \<Rightarrow> pyfloat \<Rightarrow> error + pyfloat" where
  "percent_of used tot =
     (if py_gt tot (Fin 0)
      then (case fdiv used tot of Inl e \<Rightarrow> Inl e | Inr q \<Rightarrow> Inr (fmul q (Fin 100)))
      else Inr (Fin 0))"

text \<open>
  \<open>draw_system_metrics(status)\<close>, lines 290--335: \<open>m\<close> holds the four samples taken at
  its head, \<open>status\<close> is the record the caller has read and \<open>f\<close> the status file at the
  time of the call.  The \<open>float\<close> call on the stored peak is not guarded.  The peak is
  updated before the panel is assembled, so the result is the status file afterwards
  together with the text of the panel or the exception that ended the call.
\<close>

definition metrics_panel :: "metrics \<Rightarrow> pyfloat \<Rightarrow> error + utext" where
  "metrics_panel m peak_mem =
     (let cpu_color = get_color_for_percent (cpu m) 50 80 in
      case draw_metric_bar (cpu m) (Fin 100) 25 cpu_color of
        Inl e \<Rightarrow> Inl e
      | Inr cpu_bar \<Rightarrow>
      (case percent_of (mem_used m) (mem_total m) of
        Inl e \<Rightarrow> Inl e
      | Inr mem_percent \<Rightarrow>
      (let mem_color = get_color_for_percent mem_percent 70 90 in
       case draw_metric_bar mem_percent (Fin 100) 25 mem_color of
        Inl e \<Rightarrow> Inl e
      | Inr mem_bar \<Rightarrow>
      (case (if py_gt (swap_total m) (Fin 0)
             then (case percent_of (swap_used m) (swap_total m) of
                     Inl e \<Rightarrow> Inl e
                   | Inr swap_percent \<Rightarrow>
                       (let swap_color = get_color_for_percent swap_percent 50 80 in
                        case draw_metric_bar swap_percent (Fin 100) 25 swap_color of
                          Inl e \<Rightarrow> Inl e
                        | Inr swap_bar \<Rightarrow>
                            Inr [border @ u ''  '' @ CYAN @ u ''Swap:'' @ NC @ u ''   ''
                                   @ swap_bar @ u '' '' @ swap_color
                                   @ u (rjust 5 (fmt_f 0 (swap_used m))) @ NC @ u ''/'' @ WHITE
                                   @ u (fmt_f 0 (swap_total m)) @ u '' MB'' @ NC]))
             else Inr []) of
        Inl e \<Rightarrow> Inl e
      | Inr swap_lines \<Rightarrow>
          Inr (py_join [10]
            ([[],
              WHITE @ BOLD @ [BOX_DR, BOX_H] @ u '' SYSTEM METRICS ''
                @ replicate 52 BOX_H @ [BOX_DL] @ NC,
              border,
              border @ u ''  '' @ CYAN @ u ''CPU:'' @ NC @ u ''    '' @ cpu_bar @ u '' ''
                @ cpu_color @ u (rjust 5 (fmt_f 1 (cpu m))) @ u ''%'' @ NC,
              border @ u ''  '' @ CYAN @ u ''Memory:'' @ NC @ u '' '' @ mem_bar @ u '' ''
                @ mem_color @ u (rjust 5 (fmt_f 1 (mem_used m))) @ NC @ u ''/'' @ WHITE
                @ u (fmt_f 0 (mem_total m)) @ u '' GB'' @ NC]
             @ swap_lines
             @ [border @ u ''  '' @ CYAN @ u ''Load:'' @ NC @ u ''   '' @ WHITE
                  @ u (fmt_f 2 (load_avg m)) @ NC @ u ''  '' @ GRAY @ u ''Peak Mem: '' @ MAGENTA
                  @ u (fmt_f 1 peak_mem) @ u '' GB'' @ NC,
                border,
                WHITE @ [BOX_UR] @ replicate 69 BOX_H @ [BOX_UL] @ NC]))))))"

definition draw_system_metrics :: "metrics \<Rightarrow> status \<Rightarrow> sfile \<Rightarrow> sfile \<times> (error + utext)" where
  "draw_system_metrics m status f =
     (case py_float (dict_get status ''PEAK_MEMORY'' ''0'') of
        None \<Rightarrow> (f, Inl ValueError)
      | Some stored \<Rightarrow>
          if py_gt (mem_used m) stored
          then (update_status ''PEAK_MEMORY'' (fmt_f 1 (mem_used m)) f,
                metrics_panel m (mem_used m))
          else (f, metrics_panel m stored))"

text \<open>
  The status file after one frame of \<open>Dashboard.draw\<close>, which reads the status file and
  hands the record to \<open>draw_system_metrics\<close>.  No other function called by \<open>draw\<close>
  writes the status file.
\<close>

definition frame_file :: "sfile \<Rightarrow> metrics \<Rightarrow> sfile" where
  "frame_file f m = fst (draw_system_metrics m (read_status f) f)"

definition stored_peak :: "sfile \<Rightarrow> string" where
  "stored_peak f = dict_get (read_status f) ''PEAK_MEMORY'' ''0''"

text \<open>A sample of the memory in use that is a finite binary64 number.\<close>

definition finite_sample :: "metrics \<Rightarrow> bool" where
  "finite_sample m = (case mem_used m of Fin x \<Rightarrow> is_double x | _ \<Rightarrow> False)"

section \<open>Build wrapper: classification of the build output\<close>

text \<open>
  \<open>re.search(r'(\d+)\s*constraints', line)\<close>: the leftmost position from which a maximal
  run of digits, then a maximal run of whitespace, then the word \<open>constraints\<close> follow;
  the result is group 1, the digits.  (A shorter run of digits or of whitespace is followed
  by a digit or a whitespace character, so backtracking finds no other match.)
\<close>

definition match_constraints_here :: "string \<Rightarrow> string option" where
  "match_constraints_here s =
     (let ds = takeWhile is_digit s;
          rest = dropWhile is_space (dropWhile is_digit s)
      in if ds \<noteq> [] \<and> starts_with ''constraints'' rest then Some ds else None)"

fun search_constraints :: "string \<Rightarrow> string option" where
  "search_constraints [] = None"
| "search_constraints (c # cs) =
     (case match_constraints_here (c # cs) of
        Some ds \<Rightarrow> Some ds
      | None \<Rightarrow> search_constraints cs)"

text \<open>
  The body of the loop of \<open>read_output\<close>, lines 585--615, one definition for each
  \<open>if\<close> statement, in the order of the source.  Only the third can raise: \<open>int\<close> of the
  stored \<open>COMPLETED_PARTS\<close> is not guarded.
\<close>

definition rule_part :: "string \<Rightarrow> sfile \<Rightarrow> sfile" where
  "rule_part line f =
     (if py_in ''Compiling Part'' line \<or> py_in ''part'' (py_lower line)
      then (let f1 = update_status ''STAGE'' ''compiling'' f in
            case find (\<lambda>w. starts_with ''part'' w \<or> starts_with ''Part'' w) (py_split line) of
              None \<Rightarrow> f1
            | Some w \<Rightarrow> update_status ''PART'' w f1)
      else f)"

definition rule_constraints :: "string \<Rightarrow> sfile \<Rightarrow> sfile" where
  "rule_constraints line f =
     (if py_in ''constraints'' (py_lower line)
      then (case search_constraints line of
              None \<Rightarrow> f
            | Some ds \<Rightarrow> update_status ''CURRENT_CONSTRAINTS'' ds f)
      else f)"

definition rule_compiled :: "string \<Rightarrow> sfile \<Rightarrow> error + sfile" where
  "rule_compiled line f =
     (if py_in ''compiled'' (py_lower line) \<or> py_in ''Compiled'' line
      then (case py_int (dict_get (read_status f) ''COMPLETED_PARTS'' ''0'') of
              None \<Rightarrow> Inl ValueError
            | Some completed \<Rightarrow>
                (case py_str (completed + 1) of
                   Inl e \<Rightarrow> Inl e
                 | Inr text \<Rightarrow> Inr (update_status ''COMPLETED_PARTS'' text f)))
      else Inr f)"

definition rule_witness :: "string \<Rightarrow> sfile \<Rightarrow> sfile" where
  "rule_witness line f =
     (if py_in ''Generating witness'' line
      then update_status ''STEP'' ''generating witness'' (update_status ''STAGE'' ''witness'' f)
      else f)"

definition rule_zkey :: "string \<Rightarrow> sfile \<Rightarrow> sfile" where
  "rule_zkey line f =
     (if py_in ''zkey'' (py_lower line)
      then update_status ''STEP'' ''generating zkey'' (update_status ''STAGE'' ''trusted_setup'' f)
      else f)"

definition rule_proof :: "string \<Rightarrow> sfile \<Rightarrow> sfile" where
  "rule_proof line f =
     (if py_in ''proof'' (py_lower line)
      then update_status ''STEP'' ''generating proof'' (update_status ''STAGE'' ''proving'' f)
      else f)"

definition rule_done :: "string \<Rightarrow> sfile \<Rightarrow> sfile" where
  "rule_done line f =
     (if py_in ''Done'' line \<or> py_in ''success'' (py_lower line)
      then update_status ''STAGE'' ''complete'' f
      else f)"

definition classify_line :: "string \<Rightarrow> sfile \<Rightarrow> error + sfile" where
  "classify_line line f =
     (case rule_compiled line (rule_constraints line (rule_part line f)) of
        Inl e \<Rightarrow> Inl e
      | Inr f3 \<Rightarrow> Inr (rule_done line (rule_proof line (rule_zkey line (rule_witness line f3)))))"

text \<open>
  \<open>read_output\<close>: every line of the child's output is appended to the log and classified;
  when the output ends the stage is forced to \<open>complete\<close>.  An exception ends the thread
  before that.  The state is the status file and the text of the log.
\<close>

fun read_output_loop :: "string list \<Rightarrow> sfile \<times> string \<Rightarrow> error + sfile \<times> string" where
  "read_output_loop [] w = Inr w"
| "read_output_loop (line # rest) (f, lg) =
     (case classify_line line f of
        Inl e \<Rightarrow> Inl e
      | Inr f' \<Rightarrow> read_output_loop rest (f', lg @ line))"

definition read_output :: "string list \<Rightarrow> sfile \<Rightarrow> error + sfile \<times> string" where
  "read_output lines f =
     (case read_output_loop lines (f, []) of
        Inl e \<Rightarrow> Inl e
      | Inr (f', lg) \<Rightarrow> Inr (update_status ''STAGE'' ''complete'' f', lg))"

section \<open>A monitored run\<close>

text \<open>
  \<open>run_with_monitoring\<close> initialises the status file with eight parts, then sets the stage
  and the log file, lines 549, 575 and 576; the path of the log file is the one that
  \<open>init_status\<close> has stored.
\<close>

definition start_monitoring :: "string \<Rightarrow> int \<Rightarrow> string \<Rightarrow> error + sfile" where
  "start_monitoring mode now log_path =
     (case init_status mode 8 now log_path of
        Inl e \<Rightarrow> Inl e
      | Inr f \<Rightarrow> Inr (update_status ''LOG_FILE'' log_path (update_status ''STAGE'' ''starting'' f)))"

text \<open>
  From then on the status file is written by the renderer, in a frame whose sample exceeds
  the stored peak, and by \<open>read_output\<close>, which handles each line of the build output and
  sets the stage once more when the output has ended, line 617.  When the third statement
  of the loop body raises, the file is as the first two statements left it.  An event is
  one of these steps; the steps of a run are taken one after the other, a call of
  \<open>update_status\<close> of one thread never between the reading and the writing of a call of
  the other.  An exception ends the thread that raised it, so the files of a run are among
  those after a sequence of events.
\<close>

datatype event = Frame metrics | Output string | Closed

definition line_file :: "string \<Rightarrow> sfile \<Rightarrow> sfile" where
  "line_file line f =
     (case classify_line line f of
        Inl e \<Rightarrow> rule_constraints line (rule_part line f)
      | Inr f' \<Rightarrow> f')"

fun event_file :: "sfile \<Rightarrow> event \<Rightarrow> sfile" where
  "event_file f (Frame m) = frame_file f m"
| "event_file f (Output line) = line_file line f"
| "event_file f Closed = update_status ''STAGE'' ''complete'' f"

definition run_file :: "sfile \<Rightarrow> event list \<Rightarrow> sfile" where
  "run_file f es = foldl event_file f es"

text \<open>The samples of the frames among the events are finite binary64 numbers.\<close>

fun finite_event :: "event \<Rightarrow> bool" where
  "finite_event (Frame m) = finite_sample m"
| "finite_event (Output line) = True"
| "finite_event Closed = True"

section \<open>Properties of the status file functions\<close>

subsection \<open>Lines and stripping\<close>

lemma CR_neq_LF: "CR \<noteq> LF" by (simp add: CR_def LF_def)

lemma is_space_LF: "is_space LF" by (simp add: is_space_def LF_def)
lemma not_space_eq: "\<not> is_space CHR ''=''" by (simp add: is_space_def)

lemma univ_newlines_id: "CR \<notin> set s \<Longrightarrow> univ_newlines s = s"
  by (induction s rule: univ_newlines.induct) auto

lemma univ_newlines_no_CR: "CR \<notin> set (univ_newlines s)"
  by (induction s rule: univ_newlines.induct) (auto simp: CR_neq_LF)

lemma file_lines_append:
  "LF \<notin> set l \<Longrightarrow> file_lines (l @ LF # rest) = (l @ [LF]) # file_lines rest"
  by (induction l) auto

lemma file_lines_shape:
  "l \<in> set (file_lines s) \<Longrightarrow> l \<noteq> [] \<and> LF \<notin> set (butlast l) \<and> set l \<subseteq> set s"
proof (induction s arbitrary: l)
  case Nil
  then show ?case by simp
next
  case (Cons c cs)
  show ?case
  proof (cases "c = LF")
    case True
    with Cons show ?thesis by auto
  next
    case False
    show ?thesis
    proof (cases "file_lines cs")
      case Nil
      with False Cons.prems show ?thesis by auto
    next
      case (Cons m ms)
      then have m: "m \<noteq> [] \<and> LF \<notin> set (butlast m) \<and> set m \<subseteq> set cs"
        using Cons.IH [of m] by simp
      from Cons False Cons.prems have "l = c # m \<or> l \<in> set ms" by auto
      then show ?thesis
      proof
        assume "l = c # m"
        with m False show ?thesis by auto
      next
        assume "l \<in> set ms"
        then have "l \<in> set (file_lines cs)" using Cons by simp
        then show ?thesis using Cons.IH [of l] by auto
      qed
    qed
  qed
qed

lemma set_py_strip: "set (py_strip s) \<subseteq> set s"
proof -
  have "set (py_strip s) \<subseteq> set (dropWhile is_space s)"
    unfolding py_strip_def using set_dropWhileD [of _ is_space "rev (dropWhile is_space s)"] by auto
  also have "\<dots> \<subseteq> set s" using set_dropWhileD by fastforce
  finally show ?thesis .
qed

lemma py_strip_snoc_space:
  assumes "is_space c"
  shows "py_strip (b @ [c]) = py_strip b"
proof (cases "\<forall>x\<in>set b. is_space x")
  case True
  then have e: "dropWhile is_space b = []" by simp
  from True assms show ?thesis by (simp add: py_strip_def dropWhile_append e)
next
  case False
  with assms show ?thesis by (auto simp: py_strip_def dropWhile_append)
qed

lemma py_strip_hd: "py_strip s \<noteq> [] \<Longrightarrow> \<not> is_space (hd (py_strip s))"
proof -
  assume ne: "py_strip s \<noteq> []"
  define t where "t = dropWhile is_space s"
  have t: "t = [] \<or> \<not> is_space (hd t)" unfolding t_def using hd_dropWhile by blast
  have p: "py_strip s = rev (dropWhile is_space (rev t))" by (simp add: py_strip_def t_def)
  obtain a where a: "t = py_strip s @ a"
    by (metis p rev_rev_ident rev_append takeWhile_dropWhile_id)
  with ne have "hd (py_strip s) = hd t" by simp
  moreover from a ne have "t \<noteq> []" by auto
  ultimately show ?thesis using t by simp
qed

lemma py_strip_last: "py_strip s \<noteq> [] \<Longrightarrow> \<not> is_space (last (py_strip s))"
proof -
  assume ne: "py_strip s \<noteq> []"
  define r where "r = dropWhile is_space (rev (dropWhile is_space s))"
  have "r \<noteq> []" using ne by (simp add: py_strip_def r_def)
  then have "\<not> is_space (hd r)" unfolding r_def using hd_dropWhile by blast
  moreover have "py_strip s = rev r" by (simp add: py_strip_def r_def)
  ultimately show ?thesis using \<open>r \<noteq> []\<close> by (simp add: last_rev)
qed

lemma py_strip_id:
  "s \<noteq> [] \<Longrightarrow> \<not> is_space (hd s) \<Longrightarrow> \<not> is_space (last s) \<Longrightarrow> py_strip s = s"
proof -
  assume a: "s \<noteq> []" "\<not> is_space (hd s)" "\<not> is_space (last s)"
  then have "dropWhile is_space s = s" by (cases s) auto
  moreover have "dropWhile is_space (rev s) = rev s" using a by (cases "rev s") (auto simp: hd_rev)
  ultimately show ?thesis by (simp add: py_strip_def)
qed

subsection \<open>Writing and reading back\<close>

lemma split_at_eq:
  "CHR ''='' \<notin> set k \<Longrightarrow>
     takeWhile (\<lambda>c. c \<noteq> CHR ''='') (k @ CHR ''='' # v) = k
     \<and> tl (dropWhile (\<lambda>c. c \<noteq> CHR ''='') (k @ CHR ''='' # v)) = v"
  by (induction k) auto

lemma wf_entry_strip:
  assumes "wf_entry k v"
  shows "py_strip (k @ CHR ''='' # v @ [LF]) = k @ CHR ''='' # v"
proof -
  let ?t = "k @ CHR ''='' # v"
  have ne: "?t \<noteq> []" by simp
  have h: "\<not> is_space (hd ?t)" using assms by (cases k) (auto simp: wf_entry_def not_space_eq)
  have l: "\<not> is_space (last ?t)" using assms by (cases "v = []") (auto simp: wf_entry_def not_space_eq)
  have "py_strip (?t @ [LF]) = py_strip ?t" by (rule py_strip_snoc_space) (rule is_space_LF)
  also have "\<dots> = ?t" using ne h l by (rule py_strip_id)
  finally show ?thesis by simp
qed

lemma parse_line_wf:
  "wf_entry k v \<Longrightarrow> parse_line st (k @ CHR ''='' # v @ [LF]) = dict_set k v st"
  by (simp add: parse_line_def wf_entry_strip split_at_eq wf_entry_def)

lemma status_text_Cons:
  "status_text ((k, v) # d) = (k @ CHR ''='' # v) @ LF # status_text d"
  by (simp add: status_text_def)

lemma CR_neq_eq: "CR \<noteq> CHR ''=''" by (simp add: CR_def)

lemma CR_status_text: "list_all (\<lambda>(k, v). wf_entry k v) d \<Longrightarrow> CR \<notin> set (status_text d)"
proof (induction d)
  case Nil
  then show ?case by (simp add: status_text_def)
next
  case (Cons e d)
  obtain k v where e: "e = (k, v)" by (cases e)
  with Cons show ?case by (simp add: status_text_Cons wf_entry_def CR_neq_LF CR_neq_eq)
qed

lemma file_lines_status_text:
  "list_all (\<lambda>(k, v). wf_entry k v) d \<Longrightarrow>
     file_lines (status_text d) = map (\<lambda>(k, v). k @ CHR ''='' # v @ [LF]) d"
proof (induction d)
  case Nil
  then show ?case by (simp add: status_text_def)
next
  case (Cons e d)
  obtain k v where e: "e = (k, v)" by (cases e)
  with Cons.prems have "LF \<notin> set (k @ CHR ''='' # v)" by (auto simp: wf_entry_def LF_def)
  then have "file_lines ((k @ CHR ''='' # v) @ LF # status_text d)
             = ((k @ CHR ''='' # v) @ [LF]) # file_lines (status_text d)"
    by (rule file_lines_append)
  with Cons e show ?case by (simp add: status_text_Cons)
qed

lemma foldl_parse_lines:
  "list_all (\<lambda>(k, v). wf_entry k v) d \<Longrightarrow>
     foldl parse_line st (map (\<lambda>(k, v). k @ CHR ''='' # v @ [LF]) d)
     = foldl (\<lambda>st (k, v). dict_set k v st) st d"
  by (induction d arbitrary: st) (auto simp: parse_line_wf)

lemma update_new_key: "k \<notin> fst ` set st \<Longrightarrow> AList.update k v st = st @ [(k, v)]"
  by (induction st) auto

lemma foldl_dict_set_distinct:
  "distinct (map fst d) \<Longrightarrow> fst ` set st \<inter> fst ` set d = {} \<Longrightarrow>
     foldl (\<lambda>st (k, v). dict_set k v st) st d = st @ d"
proof (induction d arbitrary: st)
  case Nil
  then show ?case by simp
next
  case (Cons e d)
  obtain k v where e: "e = (k, v)" by (cases e)
  from Cons.prems e have k: "k \<notin> fst ` set st" by auto
  have "fst ` set (st @ [(k, v)]) \<inter> fst ` set d = {}" using Cons.prems e by auto
  moreover have "distinct (map fst d)" using Cons.prems by simp
  ultimately have "foldl (\<lambda>st (k, v). dict_set k v st) (st @ [(k, v)]) d = (st @ [(k, v)]) @ d"
    by (rule Cons.IH [rotated])
  then show ?case using e k by (simp add: dict_set_def update_new_key)
qed

lemma read_text_status_text: "wf_status d \<Longrightarrow> read_text (status_text d) = d"
proof -
  assume w: "wf_status d"
  then have a: "list_all (\<lambda>(k, v). wf_entry k v) d" and dd: "distinct (map fst d)"
    by (simp_all add: wf_status_def)
  have "read_text (status_text d) = foldl parse_line [] (file_lines (status_text d))"
    by (simp add: read_text_def univ_newlines_id [OF CR_status_text [OF a]])
  also have "\<dots> = foldl (\<lambda>st (k, v). dict_set k v st) [] d"
    by (simp add: file_lines_status_text [OF a] foldl_parse_lines [OF a])
  also have "\<dots> = [] @ d" by (rule foldl_dict_set_distinct) (use dd in auto)
  finally show ?thesis by simp
qed

lemma wf_dict_set: "wf_status d \<Longrightarrow> wf_entry k v \<Longrightarrow> wf_status (dict_set k v d)"
proof -
  assume w: "wf_status d" and e: "wf_entry k v"
  have "list_all (\<lambda>(k, v). wf_entry k v) (AList.update k v d)"
    using w e unfolding wf_status_def by (induction d) auto
  then show ?thesis using w by (simp add: wf_status_def dict_set_def distinct_update)
qed

lemma strip_line_chars:
  assumes "l \<noteq> []" "LF \<notin> set (butlast l)" "CR \<notin> set l"
  shows "LF \<notin> set (py_strip l) \<and> CR \<notin> set (py_strip l)"
proof -
  have c: "CR \<notin> set (py_strip l)" using assms(3) set_py_strip by blast
  have "LF \<notin> set (py_strip l)"
  proof (cases "last l = LF")
    case True
    have "l = butlast l @ [LF]" using True assms(1) append_butlast_last_id [of l] by simp
    then have "py_strip l = py_strip (butlast l)"
      using py_strip_snoc_space [OF is_space_LF, of "butlast l"] by simp
    then show ?thesis using assms(2) set_py_strip by fastforce
  next
    case False
    have "set l = insert (last l) (set (butlast l))"
      using assms(1) by (induction l) auto
    with False have "LF \<notin> set l" using assms(2) by auto
    then show ?thesis using set_py_strip by blast
  qed
  with c show ?thesis by simp
qed

lemma wf_parse_line:
  assumes "wf_status st" "l \<noteq> []" "LF \<notin> set (butlast l)" "CR \<notin> set l"
  shows "wf_status (parse_line st l)"
proof (cases "CHR ''='' \<in> set (py_strip l)")
  case False
  then show ?thesis using assms(1) by (simp add: parse_line_def)
next
  case True
  then obtain k v where t: "py_strip l = k @ CHR ''='' # v" and k1: "CHR ''='' \<notin> set k"
    by (meson split_list_first)
  have ne: "py_strip l \<noteq> []" using True by auto
  have ch: "LF \<notin> set (py_strip l) \<and> CR \<notin> set (py_strip l)"
    using assms(2-4) by (rule strip_line_chars)
  have k2: "k = [] \<or> \<not> is_space (hd k)"
    using py_strip_hd [OF ne] by (cases k) (simp_all add: t)
  have v2: "v = [] \<or> \<not> is_space (last v)"
    using py_strip_last [OF ne] by (cases "v = []") (simp_all add: t)
  have "wf_entry k v" using ch k1 k2 v2 by (auto simp: wf_entry_def t)
  then have "wf_status (dict_set k v st)" using assms(1) wf_dict_set by blast
  moreover have "parse_line st l = dict_set k v st"
    using split_at_eq [OF k1, of v] by (simp add: parse_line_def t)
  ultimately show ?thesis by simp
qed

lemma wf_foldl_parse:
  "wf_status st \<Longrightarrow> \<forall>l\<in>set ls. l \<noteq> [] \<and> LF \<notin> set (butlast l) \<and> CR \<notin> set l \<Longrightarrow>
     wf_status (foldl parse_line st ls)"
  by (induction ls arbitrary: st) (auto simp: wf_parse_line)

lemma wf_read_text: "wf_status (read_text s)"
proof -
  have "\<forall>l\<in>set (file_lines (univ_newlines s)). l \<noteq> [] \<and> LF \<notin> set (butlast l) \<and> CR \<notin> set l"
    using file_lines_shape [of _ "univ_newlines s"] univ_newlines_no_CR [of s] by blast
  moreover have "wf_status []" by (simp add: wf_status_def)
  ultimately show ?thesis unfolding read_text_def by (rule wf_foldl_parse [rotated])
qed

lemma wf_read_status: "wf_status (read_status f)"
  by (cases f) (simp_all add: wf_read_text, simp add: wf_status_def)

lemma read_write_status: "wf_status d \<Longrightarrow> read_status (write_status d) = d"
  by (simp add: write_status_def read_text_status_text)

lemma read_update_status:
  "wf_entry k v \<Longrightarrow> read_status (update_status k v f) = dict_set k v (read_status f)"
  by (simp add: update_status_def read_write_status wf_dict_set wf_read_status)

subsection \<open>Files given line by line\<close>

lemma univ_newlines_lines_text:
  "list_all plain_line ls \<Longrightarrow> univ_newlines (lines_text ls) = lines_text ls"
proof -
  assume "list_all plain_line ls"
  then have "CR \<notin> set (lines_text ls)"
    by (induction ls) (auto simp: lines_text_def plain_line_def CR_neq_LF)
  then show ?thesis by (rule univ_newlines_id)
qed

lemma file_lines_lines_text:
  "list_all plain_line ls \<Longrightarrow> file_lines (lines_text ls) = map (\<lambda>l. l @ [LF]) ls"
proof (induction ls)
  case Nil
  then show ?case by (simp add: lines_text_def)
next
  case (Cons l ls)
  then have "LF \<notin> set l" by (simp add: plain_line_def)
  then have "file_lines (l @ LF # lines_text ls) = (l @ [LF]) # file_lines (lines_text ls)"
    by (rule file_lines_append)
  moreover have "lines_text (l # ls) = l @ LF # lines_text ls" by (simp add: lines_text_def)
  ultimately show ?case using Cons by simp
qed

lemma read_text_lines_text:
  "list_all plain_line ls \<Longrightarrow>
     read_text (lines_text ls) = foldl parse_line [] (map (\<lambda>l. l @ [LF]) ls)"
  by (simp add: read_text_def univ_newlines_lines_text file_lines_lines_text)

lemma py_strip_LF: "py_strip (l @ [LF]) = py_strip l"
  by (rule py_strip_snoc_space) (rule is_space_LF)

lemma parse_line_no_eq: "CHR ''='' \<notin> set l \<Longrightarrow> parse_line st (l @ [LF]) = st"
  using set_py_strip [of l] by (auto simp: parse_line_def py_strip_LF Let_def)

lemma parse_line_other_key:
  "line_key l \<noteq> Some k \<Longrightarrow> map_of (parse_line st (l @ [LF])) k = map_of st k"
  by (auto simp: parse_line_def line_key_def py_strip_LF Let_def dict_set_def update_conv')

lemma foldl_parse_other_keys:
  "\<forall>l\<in>set ls. line_key l \<noteq> Some k \<Longrightarrow>
     map_of (foldl parse_line st (map (\<lambda>l. l @ [LF]) ls)) k = map_of st k"
  by (induction ls arbitrary: st) (simp_all add: parse_line_other_key)

lemma parse_line_wf': "wf_entry k v \<Longrightarrow> parse_line st ((k @ CHR ''='' # v) @ [LF]) = dict_set k v st"
  using parse_line_wf [of k v st] by simp

subsection \<open>Reading: what is absorbed and what is not\<close>

text \<open>
  Once the existence test has answered, \<open>read_status\<close> returns a record in every case:
  an absent file gives the empty record and a file whose reading raises gives the entries
  read so far.  In a file of lines, a line without \<open>=\<close> is skipped, and every other line
  \<open>k=v\<close>, split at its first \<open>=\<close>, is returned: the record maps \<open>k\<close> to \<open>v\<close> unless a
  later line assigns \<open>k\<close> again.
\<close>

lemma read_status_lines:
  assumes "CHR ''='' \<notin> set bad" and "list_all plain_line (ls1 @ [bad] @ ls2)"
  shows "read_status Absent = [] \<and> read_status (Failing t) = read_status (Readable t)
       \<and> read_status (Readable (lines_text (ls1 @ [bad] @ ls2)))
           = read_status (Readable (lines_text (ls1 @ ls2)))
       \<and> (\<forall>pre post k v.
             ls1 @ ls2 = pre @ [k @ CHR ''='' # v] @ post \<and> wf_entry k v
               \<and> (\<forall>l\<in>set post. line_key l \<noteq> Some k)
             \<longrightarrow> map_of (read_status (Readable (lines_text (ls1 @ [bad] @ ls2)))) k = Some v)"
proof -
  have p: "list_all plain_line (ls1 @ ls2)" using assms(2) by simp
  have skip: "read_status (Readable (lines_text (ls1 @ [bad] @ ls2)))
              = read_status (Readable (lines_text (ls1 @ ls2)))"
  proof -
    have "read_text (lines_text (ls1 @ [bad] @ ls2))
          = foldl parse_line [] (map (\<lambda>l. l @ [LF]) (ls1 @ [bad] @ ls2))"
      using assms(2) by (rule read_text_lines_text)
    also have "\<dots> = foldl parse_line [] (map (\<lambda>l. l @ [LF]) (ls1 @ ls2))"
      using assms(1) by (simp add: parse_line_no_eq)
    also have "\<dots> = read_text (lines_text (ls1 @ ls2))"
      using p by (rule read_text_lines_text [symmetric])
    finally show ?thesis by simp
  qed
  have "map_of (read_status (Readable (lines_text (ls1 @ ls2)))) k = Some v"
    if s: "ls1 @ ls2 = pre @ [k @ CHR ''='' # v] @ post" and w: "wf_entry k v"
      and o: "\<forall>l\<in>set post. line_key l \<noteq> Some k" for pre post k v
  proof -
    have "read_status (Readable (lines_text (ls1 @ ls2)))
          = foldl parse_line (dict_set k v (foldl parse_line [] (map (\<lambda>l. l @ [LF]) pre)))
              (map (\<lambda>l. l @ [LF]) post)"
    proof -
      have "read_text (lines_text (ls1 @ ls2))
            = foldl parse_line [] (map (\<lambda>l. l @ [LF]) (ls1 @ ls2))"
        using p by (rule read_text_lines_text)
      then show ?thesis by (simp add: s parse_line_wf [OF w])
    qed
    then show ?thesis using o
      by (simp add: foldl_parse_other_keys dict_set_def update_conv')
  qed
  with skip show ?thesis by auto
qed

text \<open>
  C4.  \<open>read_status\<close> absorbs the exceptions of opening and reading, not the one of the
  existence test before them: when the path of the status file cannot be examined the call
  raises.  When it can, a missing file gives the empty record, a failing read gives what
  was read, and the file with the lines \<open>MODE=mini\<close>, \<open>garbage\<close>, \<open>STAGE=idle\<close> gives the
  two entries around the line without \<open>=\<close>.
\<close>

theorem C4_read_status_raises:
  "read_status_at Denied = Inl PermissionError
   \<and> read_status_at (Examined Absent) = Inr []
   \<and> read_status_at (Examined (Failing t)) = read_status_at (Examined (Readable t))
   \<and> read_status_at (Examined (Readable (lines_text [''MODE=mini'', ''garbage'', ''STAGE=idle''])))
       = Inr [(''MODE'', ''mini''), (''STAGE'', ''idle'')]"
proof -
  have "read_status (Readable (lines_text [''MODE=mini'', ''garbage'', ''STAGE=idle'']))
        = [(''MODE'', ''mini''), (''STAGE'', ''idle'')]"
    by code_simp
  then show ?thesis by simp
qed

subsection \<open>Reading and writing back\<close>

text \<open>
  C5 (amended).  For a file that consists of the lines \<open>k=v\<close> of a record with distinct
  keys, where no key contains \<open>=\<close>, no key or value contains a line break, and no line
  starts or ends with whitespace, \<open>read_status\<close> returns that record, keys in the order
  of the lines, and \<open>write_status\<close> of it reproduces the file byte for byte.
\<close>

theorem C5_round_trip:
  "wf_status d \<Longrightarrow>
     read_status (Readable (status_text d)) = d
     \<and> write_status (read_status (Readable (status_text d))) = Readable (status_text d)"
  by (simp add: read_text_status_text write_status_def)

theorem C5_round_trip_witness:
  "write_status (read_status (Readable (lines_text [''MODE=mini'', ''STAGE=idle''])))
     = Readable (lines_text [''MODE=mini'', ''STAGE=idle''])"
proof -
  have w: "wf_status [(''MODE'', ''mini''), (''STAGE'', ''idle'')]"
    by (simp add: wf_status_def wf_entry_def LF_def CR_def is_space_def)
  have "status_text [(''MODE'', ''mini''), (''STAGE'', ''idle'')] = lines_text [''MODE=mini'', ''STAGE=idle'']"
    by (simp add: status_text_def lines_text_def)
  with C5_round_trip [OF w, THEN conjunct2] show ?thesis by simp
qed

text \<open>
  As stated, for every file of one \<open>key=value\<close> pair per line, the round trip fails: a
  repeated key keeps only its last line, and trailing whitespace of a value is stripped.
\<close>

theorem C5_round_trip_counterexample:
  "write_status (read_status (Readable (lines_text [''A=1'', ''A=2''])))
     = Readable (lines_text [''A=2''])
   \<and> lines_text [''A=2''] \<noteq> lines_text [''A=1'', ''A=2'']
   \<and> write_status (read_status (Readable (lines_text [''A=1 ''])))
     = Readable (lines_text [''A=1''])
   \<and> lines_text [''A=1''] \<noteq> lines_text [''A=1 '']"
  by code_simp

subsection \<open>Updating one key\<close>

text \<open>
  C6 (amended).  For every status file, every key \<open>k\<close> without \<open>=\<close>, line break or
  leading whitespace and every value \<open>v\<close> without line break or trailing whitespace,
  \<open>update_status k v\<close> followed by \<open>read_status\<close> yields \<open>v\<close> for \<open>k\<close> and the
  values read before for all other keys, whatever those keys are.
\<close>

theorem C6_update_then_read:
  "wf_entry k v \<Longrightarrow>
     read_status (update_status k v f) = dict_set k v (read_status f)
     \<and> map_of (read_status (update_status k v f)) k = Some v
     \<and> (\<forall>k'. k' \<noteq> k \<longrightarrow>
           map_of (read_status (update_status k v f)) k' = map_of (read_status f) k')"
  by (simp add: read_update_status dict_set_def update_conv')

theorem C6_update_then_read_witness:
  "map_of (read_status (update_status ''STAGE'' ''compiling''
        (Readable (lines_text [''STAGE=idle'', ''X_CUSTOM=kept''])))) ''STAGE'' = Some ''compiling''
   \<and> map_of (read_status (update_status ''STAGE'' ''compiling''
        (Readable (lines_text [''STAGE=idle'', ''X_CUSTOM=kept''])))) ''X_CUSTOM'' = Some ''kept''"
proof -
  have w: "wf_entry ''STAGE'' ''compiling''"
    by (simp add: wf_entry_def LF_def CR_def is_space_def)
  have r: "map_of (read_status (Readable (lines_text [''STAGE=idle'', ''X_CUSTOM=kept'']))) ''X_CUSTOM''
           = Some ''kept''"
    by code_simp
  note t = C6_update_then_read [OF w, of "Readable (lines_text [''STAGE=idle'', ''X_CUSTOM=kept''])"]
  have n: "''X_CUSTOM'' \<noteq> ''STAGE''" by simp
  have a: "map_of (read_status (update_status ''STAGE'' ''compiling''
        (Readable (lines_text [''STAGE=idle'', ''X_CUSTOM=kept''])))) ''STAGE'' = Some ''compiling''"
    by (rule t [THEN conjunct2, THEN conjunct1])
  have "map_of (read_status (update_status ''STAGE'' ''compiling''
        (Readable (lines_text [''STAGE=idle'', ''X_CUSTOM=kept''])))) ''X_CUSTOM''
      = map_of (read_status (Readable (lines_text [''STAGE=idle'', ''X_CUSTOM=kept'']))) ''X_CUSTOM''"
    by (rule t [THEN conjunct2, THEN conjunct2, rule_format, OF n])
  with r a show ?thesis by (simp only: simp_thms)
qed

text \<open>
  As stated, for every value, the property fails: a value with a trailing space is read back
  without it.
\<close>

theorem C6_update_then_read_counterexample:
  "map_of (read_status (update_status ''PART'' ''1A '' (Readable (lines_text [''PART=''])))) ''PART''
     = Some ''1A''
   \<and> ''1A'' \<noteq> ''1A ''"
  by code_simp

section \<open>Properties of the classification\<close>

subsection \<open>Tokens, digits and integers as text\<close>

lemma is_space_CR: "is_space CR" by (simp add: is_space_def CR_def)

lemma digit_not_space: "is_digit c \<Longrightarrow> \<not> is_space c"
  by (auto simp: is_digit_def is_space_def Let_def)

lemma not_space_chars: "\<not> is_space c \<Longrightarrow> c \<noteq> LF \<and> c \<noteq> CR"
  using is_space_LF is_space_CR by auto

lemma split_ws_tokens:
  "\<forall>c\<in>set cur. \<not> is_space c \<Longrightarrow> w \<in> set (split_ws cur s) \<Longrightarrow>
     w \<noteq> [] \<and> (\<forall>c\<in>set w. \<not> is_space c)"
proof (induction s arbitrary: cur)
  case Nil
  then show ?case by (cases "cur = []") auto
next
  case (Cons c cs)
  show ?case
  proof (cases "is_space c")
    case True
    show ?thesis
    proof (cases "cur = []")
      case True
      with \<open>is_space c\<close> Cons.prems have "w \<in> set (split_ws [] cs)" by simp
      then show ?thesis using Cons.IH [of "[]"] by simp
    next
      case False
      with \<open>is_space c\<close> Cons.prems have "w = cur \<or> w \<in> set (split_ws [] cs)" by simp
      then show ?thesis using Cons.IH [of "[]"] Cons.prems(1) False by auto
    qed
  next
    case False
    with Cons.prems have "w \<in> set (split_ws (cur @ [c]) cs)" by simp
    moreover have "\<forall>x\<in>set (cur @ [c]). \<not> is_space x" using False Cons.prems(1) by simp
    ultimately show ?thesis using Cons.IH [of "cur @ [c]"] by blast
  qed
qed

lemma py_split_tokens: "w \<in> set (py_split s) \<Longrightarrow> w \<noteq> [] \<and> (\<forall>c\<in>set w. \<not> is_space c)"
  unfolding py_split_def using split_ws_tokens [of "[]" w s] by simp

lemma search_constraints_digits:
  "search_constraints s = Some ds \<Longrightarrow> ds \<noteq> [] \<and> (\<forall>c\<in>set ds. is_digit c)"
proof (induction s)
  case Nil
  then show ?case by simp
next
  case (Cons c cs)
  show ?case
  proof (cases "match_constraints_here (c # cs)")
    case None
    with Cons show ?thesis by simp
  next
    case (Some e)
    with Cons.prems have "e = ds" by simp
    with Some have "ds = takeWhile is_digit (c # cs) \<and> ds \<noteq> []"
      by (auto simp: match_constraints_here_def Let_def split: if_splits)
    then show ?thesis using set_takeWhileD [of _ is_digit "c # cs"] by metis
  qed
qed

lemma is_digit_digit_char: "d < 10 \<Longrightarrow> is_digit (digit_char d)"
  by (simp add: is_digit_def digit_char_def)

lemma digit_val_digit_char: "d < 10 \<Longrightarrow> digit_val (digit_char d) = d"
  by (simp add: digit_val_def digit_char_def)

lemma digits_nat_digits: "digits_nat n \<noteq> [] \<and> (\<forall>c\<in>set (digits_nat n). is_digit c)"
proof (induction n rule: digits_nat.induct)
  case (1 n)
  show ?case
  proof (cases "n < 10")
    case True
    then show ?thesis by (simp add: digits_nat.simps [of n] is_digit_digit_char)
  next
    case False
    with 1 show ?thesis by (simp add: digits_nat.simps [of n] is_digit_digit_char)
  qed
qed

lemma digits_value_snoc: "digits_value (xs @ [c]) = 10 * digits_value xs + digit_val c"
  by (simp add: digits_value_def)

lemma digits_value_digits_nat: "digits_value (digits_nat n) = n"
proof (induction n rule: digits_nat.induct)
  case (1 n)
  show ?case
  proof (cases "n < 10")
    case True
    then show ?thesis by (simp add: digits_nat.simps [of n] digits_value_def digit_val_digit_char)
  next
    case False
    with 1 show ?thesis
      by (simp add: digits_nat.simps [of n] digits_value_snoc digit_val_digit_char)
  qed
qed

lemma digit_groups_digits:
  "ds \<noteq> [] \<Longrightarrow> \<forall>c\<in>set ds. is_digit c \<Longrightarrow> digit_groups ds = Some ds"
proof (induction ds rule: digit_groups.induct)
  case 1
  then show ?case by simp
next
  case (2 c)
  then show ?case by simp
next
  case (3 c d r)
  then have "d \<noteq> CHR ''_''" by (auto simp: is_digit_def)
  with 3 show ?case by simp
qed

lemma py_strip_no_space: "\<forall>c\<in>set s. \<not> is_space c \<Longrightarrow> py_strip s = s"
proof (cases "s = []")
  case True
  then show ?thesis by (simp add: py_strip_def)
next
  case False
  assume "\<forall>c\<in>set s. \<not> is_space c"
  with False have "\<not> is_space (hd s)" "\<not> is_space (last s)" by simp_all
  with False show ?thesis by (rule py_strip_id)
qed

lemma py_str_int_chars: "\<forall>c\<in>set (py_str_int n). \<not> is_space c"
proof -
  have "\<not> is_space CHR ''-''" by (simp add: is_space_def)
  then show ?thesis using digits_nat_digits digit_not_space by (auto simp: py_str_int_def)
qed

lemma wf_entry_no_space: "key_ok k \<Longrightarrow> \<forall>c\<in>set v. \<not> is_space c \<Longrightarrow> wf_entry k v"
  using not_space_chars by (cases "v = []") (auto simp: wf_entry_def key_ok_def)

lemma map_of_read_update:
  "wf_entry k v \<Longrightarrow>
     map_of (read_status (update_status k v f)) = (map_of (read_status f))(k \<mapsto> v)"
  by (simp add: read_update_status dict_set_def update_conv')

subsection \<open>What each rule leaves unchanged\<close>

lemma starts_with_iff: "starts_with p s \<longleftrightarrow> (\<exists>b. s = p @ b)"
proof
  assume "starts_with p s"
  then have "s = p @ drop (length p) s" by (metis starts_with_def append_take_drop_id)
  then show "\<exists>b. s = p @ b" ..
next
  assume "\<exists>b. s = p @ b"
  then show "starts_with p s" by (auto simp: starts_with_def)
qed

lemma py_in_iff: "py_in sub s \<longleftrightarrow> (\<exists>a b. s = a @ sub @ b)"
proof (induction s)
  case Nil
  then show ?case by auto
next
  case (Cons c cs)
  show ?case
  proof
    assume "py_in sub (c # cs)"
    then consider "starts_with sub (c # cs)" | "py_in sub cs" by auto
    then show "\<exists>a b. c # cs = a @ sub @ b"
    proof cases
      case 1
      then obtain b where "c # cs = sub @ b" using starts_with_iff by blast
      then have "c # cs = [] @ sub @ b" by simp
      then show ?thesis by blast
    next
      case 2
      then obtain a b where "cs = a @ sub @ b" using Cons.IH by blast
      then have "c # cs = (c # a) @ sub @ b" by simp
      then show ?thesis by blast
    qed
  next
    assume "\<exists>a b. c # cs = a @ sub @ b"
    then obtain a b where ab: "c # cs = a @ sub @ b" by blast
    show "py_in sub (c # cs)"
    proof (cases a)
      case Nil
      with ab have "starts_with sub (c # cs)" using starts_with_iff by auto
      then show ?thesis by simp
    next
      case (Cons x xs)
      with ab have "cs = xs @ sub @ b" by simp
      then have "py_in sub cs" using Cons.IH by blast
      then show ?thesis by simp
    qed
  qed
qed

lemma py_lower_append: "py_lower (a @ b) = py_lower a @ py_lower b"
  by (simp add: py_lower_def)

lemma read_update_other:
  "wf_entry k v \<Longrightarrow> k' \<noteq> k \<Longrightarrow>
     map_of (read_status (update_status k v f)) k' = map_of (read_status f) k'"
  by (simp add: map_of_read_update)

lemma read_update_same:
  "wf_entry k v \<Longrightarrow> map_of (read_status (update_status k v f)) k = Some v"
  by (simp add: map_of_read_update)

lemma compiling_part_has_part:
  assumes "py_in ''Compiling Part'' line"
  shows "py_in ''part'' (py_lower line)"
proof -
  from assms obtain a b where "line = a @ ''Compiling Part'' @ b" using py_in_iff by blast
  moreover have "py_lower ''Compiling Part'' = ''compiling '' @ ''part''" by code_simp
  ultimately have "py_lower line = (py_lower a @ ''compiling '') @ ''part'' @ py_lower b"
    by (simp only: py_lower_append append_assoc)
  then show ?thesis using py_in_iff by blast
qed

lemma compiled_has_compiled:
  assumes "py_in ''Compiled'' line"
  shows "py_in ''compiled'' (py_lower line)"
proof -
  from assms obtain a b where "line = a @ ''Compiled'' @ b" using py_in_iff by blast
  moreover have "py_lower ''Compiled'' = ''compiled''" by code_simp
  ultimately have "py_lower line = py_lower a @ ''compiled'' @ py_lower b"
    by (simp only: py_lower_append)
  then show ?thesis using py_in_iff by blast
qed

lemma dict_get_map_of: "map_of d k = map_of e k \<Longrightarrow> dict_get d k x = dict_get e k x"
  by (simp add: dict_get_def)

lemma dict_get_Some: "map_of d k = Some v \<Longrightarrow> dict_get d k x = v"
  by (simp add: dict_get_def)

lemma key_ok_consts:
  "key_ok ''STAGE''" "key_ok ''PART''" "key_ok ''STEP''" "key_ok ''CURRENT_CONSTRAINTS''"
  "key_ok ''COMPLETED_PARTS''" "key_ok ''PEAK_MEMORY''"
  by (simp_all add: key_ok_def LF_def CR_def is_space_def)

lemma wf_consts:
  "wf_entry ''STAGE'' ''compiling''" "wf_entry ''STAGE'' ''witness''"
  "wf_entry ''STAGE'' ''trusted_setup''" "wf_entry ''STAGE'' ''proving''"
  "wf_entry ''STAGE'' ''complete''" "wf_entry ''STEP'' ''generating witness''"
  "wf_entry ''STEP'' ''generating zkey''" "wf_entry ''STEP'' ''generating proof''"
  by (simp_all add: wf_entry_def LF_def CR_def is_space_def)

lemma wf_part_token: "w \<in> set (py_split line) \<Longrightarrow> wf_entry ''PART'' w"
  using py_split_tokens [of w line] by (simp add: wf_entry_no_space key_ok_consts)

lemma find_in_set: "find P xs = Some x \<Longrightarrow> x \<in> set xs"
  by (induction xs) (auto split: if_splits)

lemma rule_part_frame:
  assumes "k \<noteq> ''STAGE''" "k \<noteq> ''PART''"
  shows "map_of (read_status (rule_part line f)) k = map_of (read_status f) k"
proof (cases "find (\<lambda>w. starts_with ''part'' w \<or> starts_with ''Part'' w) (py_split line)")
  case None
  then show ?thesis using assms by (simp add: rule_part_def read_update_other wf_consts)
next
  case (Some w)
  have "wf_entry ''PART'' w" by (rule wf_part_token [OF find_in_set [OF Some]])
  then show ?thesis using assms Some by (simp add: rule_part_def read_update_other wf_consts)
qed

lemma wf_constraints_digits: "search_constraints line = Some ds \<Longrightarrow> wf_entry ''CURRENT_CONSTRAINTS'' ds"
  using search_constraints_digits [of line ds] digit_not_space
  by (simp add: wf_entry_no_space key_ok_consts)

lemma rule_constraints_frame:
  assumes "k \<noteq> ''CURRENT_CONSTRAINTS''"
  shows "map_of (read_status (rule_constraints line f)) k = map_of (read_status f) k"
proof (cases "search_constraints line")
  case None
  then show ?thesis by (simp add: rule_constraints_def)
next
  case (Some ds)
  then show ?thesis using assms wf_constraints_digits
    by (simp add: rule_constraints_def read_update_other)
qed

lemma wf_completed: "wf_entry ''COMPLETED_PARTS'' (py_str_int n)"
  using py_str_int_chars by (simp add: wf_entry_no_space key_ok_consts)

lemma rule_witness_frame:
  "k \<noteq> ''STAGE'' \<Longrightarrow> k \<noteq> ''STEP'' \<Longrightarrow>
     map_of (read_status (rule_witness line f)) k = map_of (read_status f) k"
  by (simp add: rule_witness_def read_update_other wf_consts)

lemma rule_zkey_frame:
  "k \<noteq> ''STAGE'' \<Longrightarrow> k \<noteq> ''STEP'' \<Longrightarrow>
     map_of (read_status (rule_zkey line f)) k = map_of (read_status f) k"
  by (simp add: rule_zkey_def read_update_other wf_consts)

lemma rule_proof_frame:
  "k \<noteq> ''STAGE'' \<Longrightarrow> k \<noteq> ''STEP'' \<Longrightarrow>
     map_of (read_status (rule_proof line f)) k = map_of (read_status f) k"
  by (simp add: rule_proof_def read_update_other wf_consts)

lemma rule_done_frame:
  "k \<noteq> ''STAGE'' \<Longrightarrow> map_of (read_status (rule_done line f)) k = map_of (read_status f) k"
  by (simp add: rule_done_def read_update_other wf_consts)

lemma rule_done_fires:
  "py_in ''Done'' line \<or> py_in ''success'' (py_lower line) \<Longrightarrow>
     map_of (read_status (rule_done line f)) ''STAGE'' = Some ''complete''"
  by (auto simp: rule_done_def read_update_same wf_consts)

lemma classify_line_no_compiled:
  "\<not> py_in ''compiled'' (py_lower line) \<Longrightarrow>
     classify_line line f = Inr (rule_done line (rule_proof line (rule_zkey line (rule_witness line
        (rule_constraints line (rule_part line f))))))"
  using compiled_has_compiled [of line] by (auto simp: classify_line_def rule_compiled_def)

subsection \<open>The completion rule\<close>

text \<open>
  C2 (amended).  For every log line that contains \<open>Done\<close> with this capitalisation, or
  \<open>success\<close> in any capitalisation, classification sets \<open>STAGE\<close> to \<open>complete\<close>
  whenever it returns, and it returns for every line without \<open>compiled\<close>; in particular
  the line \<open>Done.\<close> sets \<open>STAGE=complete\<close> whatever the status file held before.
\<close>

theorem C2_done_sets_complete:
  assumes "py_in ''Done'' line \<or> py_in ''success'' (py_lower line)"
  shows "(\<forall>f'. classify_line line f = Inr f' \<longrightarrow>
            map_of (read_status f') ''STAGE'' = Some ''complete'')
       \<and> (\<not> py_in ''compiled'' (py_lower line) \<longrightarrow> (\<exists>f'. classify_line line f = Inr f'))
       \<and> (\<exists>f'. classify_line ''Done.'' f = Inr f'
                 \<and> map_of (read_status f') ''STAGE'' = Some ''complete'')"
proof -
  have a: "map_of (read_status f') ''STAGE'' = Some ''complete''"
    if "classify_line line f = Inr f'" for f'
  proof -
    from that obtain f3 where
      "f' = rule_done line (rule_proof line (rule_zkey line (rule_witness line f3)))"
      by (auto simp: classify_line_def split: sum.splits)
    then show ?thesis using rule_done_fires [OF assms] by simp
  qed
  have b: "\<not> py_in ''compiled'' (py_lower line) \<longrightarrow> (\<exists>f'. classify_line line f = Inr f')"
    by (simp add: classify_line_no_compiled)
  have n: "\<not> py_in ''compiled'' (py_lower ''Done.'')" by code_simp
  have d: "py_in ''Done'' ''Done.'' \<or> py_in ''success'' (py_lower ''Done.'')" by code_simp
  have c: "\<exists>f'. classify_line ''Done.'' f = Inr f'
                 \<and> map_of (read_status f') ''STAGE'' = Some ''complete''"
    using rule_done_fires [OF d] by (simp add: classify_line_no_compiled [OF n])
  from a b c show ?thesis by blast
qed

theorem C2_done_sets_complete_witness:
  "classify_line ''Build success'' (Readable (lines_text [''STAGE=proving'']))
     = Inr (Readable (lines_text [''STAGE=complete'']))
   \<and> map_of (read_status (Readable (lines_text [''STAGE=complete'']))) ''STAGE'' = Some ''complete''"
proof -
  have h: "py_in ''Done'' ''Build success'' \<or> py_in ''success'' (py_lower ''Build success'')"
    by code_simp
  have e: "classify_line ''Build success'' (Readable (lines_text [''STAGE=proving'']))
           = Inr (Readable (lines_text [''STAGE=complete'']))"
    by code_simp
  have "map_of (read_status (Readable (lines_text [''STAGE=complete'']))) ''STAGE'' = Some ''complete''"
    by (rule C2_done_sets_complete [OF h, THEN conjunct1, rule_format, OF e])
  with e show ?thesis by (simp only: simp_thms)
qed

text \<open>
  As stated, for \<open>done\<close> in any capitalisation, the property fails: the line \<open>all done\<close>
  fires no rule and leaves the stage as it was.
\<close>

theorem C2_done_sets_complete_counterexample:
  "py_in ''done'' (py_lower ''all done'')
   \<and> classify_line ''all done'' (Readable (lines_text [''STAGE=starting'']))
       = Inr (Readable (lines_text [''STAGE=starting'']))
   \<and> map_of (read_status (Readable (lines_text [''STAGE=starting'']))) ''STAGE'' = Some ''starting''
   \<and> ''starting'' \<noteq> ''complete''"
  by code_simp

subsection \<open>The part rule\<close>

lemma rule_part_not: "\<not> py_in ''part'' (py_lower line) \<Longrightarrow> rule_part line f = f"
  using compiling_part_has_part [of line] by (auto simp: rule_part_def)

text \<open>
  C3 (amended).  The first rule sets \<open>STAGE=compiling\<close> exactly for the lines that contain
  \<open>part\<close> as a substring in any capitalisation (which every line containing
  \<open>Compiling Part\<close> does); on such a line it stores as \<open>PART\<close> the first
  whitespace-delimited token beginning with \<open>part\<close> or \<open>Part\<close>, and leaves \<open>PART\<close>
  as it was when there is no such token; on every other line it leaves the status file
  untouched.  The line \<open>Compiling Part 1A: building constraints\<close> yields
  \<open>STAGE=compiling\<close> and \<open>PART=Part\<close>, whatever the status file held before.
\<close>

theorem C3_part_rule:
  "(if py_in ''part'' (py_lower line)
    then map_of (read_status (rule_part line f)) ''STAGE'' = Some ''compiling''
         \<and> (case find (\<lambda>w. starts_with ''part'' w \<or> starts_with ''Part'' w) (py_split line) of
               Some w \<Rightarrow> map_of (read_status (rule_part line f)) ''PART'' = Some w
             | None \<Rightarrow> map_of (read_status (rule_part line f)) ''PART''
                        = map_of (read_status f) ''PART'')
    else rule_part line f = f)
   \<and> (\<exists>f'. classify_line ''Compiling Part 1A: building constraints'' f = Inr f'
            \<and> map_of (read_status f') ''STAGE'' = Some ''compiling''
            \<and> map_of (read_status f') ''PART'' = Some ''Part'')"
proof -
  have a: "rule_part line f = f" if "\<not> py_in ''part'' (py_lower line)"
    using that by (rule rule_part_not)
  have b: "map_of (read_status (rule_part line f)) ''STAGE'' = Some ''compiling''
         \<and> (case find (\<lambda>w. starts_with ''part'' w \<or> starts_with ''Part'' w) (py_split line) of
               Some w \<Rightarrow> map_of (read_status (rule_part line f)) ''PART'' = Some w
             | None \<Rightarrow> map_of (read_status (rule_part line f)) ''PART''
                        = map_of (read_status f) ''PART'')"
    if p: "py_in ''part'' (py_lower line)"
  proof (cases "find (\<lambda>w. starts_with ''part'' w \<or> starts_with ''Part'' w) (py_split line)")
    case None
    then show ?thesis using p
      by (simp add: rule_part_def read_update_same read_update_other wf_consts)
  next
    case (Some w)
    have "wf_entry ''PART'' w" by (rule wf_part_token [OF find_in_set [OF Some]])
    then show ?thesis using p Some
      by (simp add: rule_part_def read_update_same read_update_other wf_consts)
  qed
  let ?L = "''Compiling Part 1A: building constraints''"
  have n: "\<not> py_in ''compiled'' (py_lower ?L)" by code_simp
  have r1: "rule_part ?L f = update_status ''PART'' ''Part'' (update_status ''STAGE'' ''compiling'' f)"
  proof -
    have "py_in ''Compiling Part'' ?L" by code_simp
    moreover have "find (\<lambda>w. starts_with ''part'' w \<or> starts_with ''Part'' w) (py_split ?L) = Some ''Part''"
      by code_simp
    ultimately show ?thesis by (simp only: rule_part_def Let_def if_True simp_thms option.case)
  qed
  have r2: "rule_constraints ?L g = g" for g
  proof -
    have "search_constraints ?L = None" by code_simp
    then show ?thesis by (simp only: rule_constraints_def option.case if_cancel)
  qed
  have r3: "rule_witness ?L g = g" for g
  proof -
    have "\<not> py_in ''Generating witness'' ?L" by code_simp
    then show ?thesis by (simp only: rule_witness_def if_False)
  qed
  have r4: "rule_zkey ?L g = g" for g
  proof -
    have "\<not> py_in ''zkey'' (py_lower ?L)" by code_simp
    then show ?thesis by (simp only: rule_zkey_def if_False)
  qed
  have r5: "rule_proof ?L g = g" for g
  proof -
    have "\<not> py_in ''proof'' (py_lower ?L)" by code_simp
    then show ?thesis by (simp only: rule_proof_def if_False)
  qed
  have r6: "rule_done ?L g = g" for g
  proof -
    have "\<not> (py_in ''Done'' ?L \<or> py_in ''success'' (py_lower ?L))" by code_simp
    then show ?thesis by (simp only: rule_done_def if_False)
  qed
  have e: "classify_line ?L f
           = Inr (update_status ''PART'' ''Part'' (update_status ''STAGE'' ''compiling'' f))"
    by (simp only: classify_line_no_compiled [OF n] r1 r2 r3 r4 r5 r6)
  have w: "wf_entry ''PART'' ''Part''" by (simp add: wf_entry_def LF_def CR_def is_space_def)
  have c: "\<exists>f'. classify_line ?L f = Inr f'
            \<and> map_of (read_status f') ''STAGE'' = Some ''compiling''
            \<and> map_of (read_status f') ''PART'' = Some ''Part''"
    by (simp add: e read_update_same read_update_other w wf_consts)
  show ?thesis
  proof (cases "py_in ''part'' (py_lower line)")
    case True
    show ?thesis by (subst if_P [OF True]) (rule conjI [OF b [OF True] c])
  next
    case False
    show ?thesis by (subst if_not_P [OF False]) (rule conjI [OF a [OF False] c])
  qed
qed

theorem C3_part_rule_witness:
  "map_of (read_status (rule_part ''building part 2'' (Readable (lines_text [''STAGE=starting''])))) ''STAGE''
     = Some ''compiling''
   \<and> map_of (read_status (rule_part ''building part 2'' (Readable (lines_text [''STAGE=starting''])))) ''PART''
     = Some ''part''
   \<and> rule_part ''building'' (Readable (lines_text [''STAGE=starting'']))
     = Readable (lines_text [''STAGE=starting''])"
proof -
  let ?f = "Readable (lines_text [''STAGE=starting''])"
  have t: "py_in ''part'' (py_lower ''building part 2'')" by code_simp
  have fd: "find (\<lambda>w. starts_with ''part'' w \<or> starts_with ''Part'' w) (py_split ''building part 2'')
            = Some ''part''" by code_simp
  have n: "\<not> py_in ''part'' (py_lower ''building'')" by code_simp
  note x = C3_part_rule [of "''building part 2''" ?f, THEN conjunct1]
  note y = C3_part_rule [of "''building''" ?f, THEN conjunct1]
  from x have x': "map_of (read_status (rule_part ''building part 2'' ?f)) ''STAGE'' = Some ''compiling''
         \<and> (case Some ''part'' of
               Some w \<Rightarrow> map_of (read_status (rule_part ''building part 2'' ?f)) ''PART'' = Some w
             | None \<Rightarrow> map_of (read_status (rule_part ''building part 2'' ?f)) ''PART''
                        = map_of (read_status ?f) ''PART'')"
    by (simp only: if_P [OF t] fd)
  from y have y': "rule_part ''building'' ?f = ?f" by (simp only: if_not_P [OF n])
  from x' y' show ?thesis by (simp only: option.case simp_thms)
qed

text \<open>
  As stated, with the bare word \<open>part\<close> required, the property fails: the line
  \<open>partial results\<close> has no token \<open>part\<close>, yet it sets \<open>STAGE=compiling\<close> and
  \<open>PART=partial\<close>.
\<close>

theorem C3_part_rule_counterexample:
  "classify_line ''partial results'' (Readable (lines_text [''STAGE=starting'']))
     = Inr (Readable (lines_text [''STAGE=compiling'', ''PART=partial'']))
   \<and> ''part'' \<notin> set (py_split (py_lower ''partial results''))
   \<and> \<not> py_in ''compiling part'' (py_lower ''partial results'')"
  by code_simp

subsection \<open>The counter of completed parts\<close>

text \<open>
  C7.  The increment of \<open>COMPLETED_PARTS\<close> parses the stored value with an unguarded
  \<open>int\<close>: on the line \<open>Compiled part 1A\<close>, a stored value \<open>abc\<close> or an empty one makes
  the classification raise \<open>ValueError\<close> instead of counting from the default.  From a
  stored \<open>0\<close> the same line stores \<open>1\<close>, and the two lines \<open>Compiled part 1A\<close> and
  \<open>Compiled part 1B\<close> end with \<open>COMPLETED_PARTS=2\<close>.
\<close>

theorem C7_compiled_unparseable_raises:
  "classify_line ''Compiled part 1A'' (Readable (lines_text [''COMPLETED_PARTS=abc'']))
     = Inl ValueError
   \<and> classify_line ''Compiled part 1A'' (Readable (lines_text [''COMPLETED_PARTS='']))
     = Inl ValueError
   \<and> classify_line ''Compiled part 1A'' (Readable (lines_text [''COMPLETED_PARTS=0'']))
     = Inr (Readable (lines_text [''COMPLETED_PARTS=1'', ''STAGE=compiling'', ''PART=part'']))
   \<and> read_output [''Compiled part 1A'', ''Compiled part 1B'']
        (Readable (lines_text [''COMPLETED_PARTS=0'']))
     = Inr (Readable (lines_text [''COMPLETED_PARTS=2'', ''STAGE=complete'', ''PART=part'']),
            ''Compiled part 1ACompiled part 1B'')"
  by code_simp

section \<open>Properties of the dashboard sections\<close>

subsection \<open>Unparseable numeric fields\<close>

lemma draw_progress_bar_returns: "\<exists>s. draw_progress_bar current tot width = Inr s"
  by (simp add: draw_progress_bar_def py_floordiv_def Let_def)

lemma py_int_abc: "py_int ''abc'' = None" by code_simp

text \<open>
  C1.  The degradation of an unparseable numeric field to its default is implemented for
  \<open>CURRENT_CONSTRAINTS\<close> only, whose \<open>int\<close> call is guarded: a record with a non-numeric
  \<open>CURRENT_CONSTRAINTS\<close> is drawn.  A record whose \<open>TOTAL_PARTS\<close>, \<open>COMPLETED_PARTS\<close>
  or \<open>START_TIME\<close> is the text \<open>abc\<close> makes \<open>draw_compilation_progress\<close> raise
  \<open>ValueError\<close>, and one whose \<open>PEAK_MEMORY\<close> is \<open>abc\<close> makes
  \<open>draw_system_metrics\<close> raise it, whatever the sampled metrics are.
\<close>

theorem C1_unparseable_field_raises:
  "draw_compilation_progress (read_status (Readable (lines_text [''TOTAL_PARTS=abc'']))) now
     = Inl ValueError
   \<and> draw_compilation_progress (read_status (Readable (lines_text [''COMPLETED_PARTS=abc'']))) now
     = Inl ValueError
   \<and> draw_compilation_progress (read_status (Readable (lines_text [''START_TIME=abc'']))) now
     = Inl ValueError
   \<and> draw_system_metrics m (read_status (Readable (lines_text [''PEAK_MEMORY=abc''])))
        (Readable (lines_text [''PEAK_MEMORY=abc'']))
       = (Readable (lines_text [''PEAK_MEMORY=abc'']), Inl ValueError)
   \<and> (\<exists>text. draw_compilation_progress
                 (read_status (Readable (lines_text [''STAGE=compiling'', ''CURRENT_CONSTRAINTS=abc''])))
                 now = Inr text)"
proof -
  have r1: "read_status (Readable (lines_text [''TOTAL_PARTS=abc''])) = [(''TOTAL_PARTS'', ''abc'')]"
    by code_simp
  have r2: "read_status (Readable (lines_text [''COMPLETED_PARTS=abc'']))
            = [(''COMPLETED_PARTS'', ''abc'')]"
    by code_simp
  have r3: "read_status (Readable (lines_text [''START_TIME=abc''])) = [(''START_TIME'', ''abc'')]"
    by code_simp
  have r4: "read_status (Readable (lines_text [''PEAK_MEMORY=abc''])) = [(''PEAK_MEMORY'', ''abc'')]"
    by code_simp
  have r5: "read_status (Readable (lines_text [''STAGE=compiling'', ''CURRENT_CONSTRAINTS=abc'']))
            = [(''STAGE'', ''compiling''), (''CURRENT_CONSTRAINTS'', ''abc'')]"
    by code_simp
  have i8: "py_int ''8'' = Some 8" by code_simp
  have i0: "py_int ''0'' = Some 0" by code_simp
  have fl: "py_float ''abc'' = None" by code_simp
  have a: "draw_compilation_progress [(''TOTAL_PARTS'', ''abc'')] now = Inl ValueError"
    by (simp add: draw_compilation_progress_def dict_get_def py_int_abc)
  have b: "draw_compilation_progress [(''COMPLETED_PARTS'', ''abc'')] now = Inl ValueError"
    by (simp add: draw_compilation_progress_def dict_get_def py_int_abc i8)
  have c: "draw_compilation_progress [(''START_TIME'', ''abc'')] now = Inl ValueError"
    by (simp add: draw_compilation_progress_def dict_get_def py_int_abc i8 i0)
  have d: "draw_system_metrics m [(''PEAK_MEMORY'', ''abc'')] g = (g, Inl ValueError)" for g
    by (simp add: draw_system_metrics_def dict_get_def fl)
  obtain s where s: "draw_progress_bar 0 8 50 = Inr s"
    using draw_progress_bar_returns by blast
  have e: "\<exists>text. draw_compilation_progress
            [(''STAGE'', ''compiling''), (''CURRENT_CONSTRAINTS'', ''abc'')] now = Inr text"
    by (simp add: draw_compilation_progress_def dict_get_def i8 i0 s)
  from a b c d e show ?thesis by (simp only: r1 r2 r3 r4 r5 simp_thms)
qed

section \<open>Progress bar\<close>

text \<open>
  C9.  For \<open>current = 3\<close>, \<open>total = 8\<close>, \<open>width = 40\<close> the bar is an opening bracket,
  exactly 15 filled cells followed by exactly 25 empty cells, a closing bracket, and the
  percentage \<open>37\<close> right-aligned in three columns followed by a percent sign.
\<close>

theorem C9_progress_bar_3_8_40:
  "draw_progress_bar 3 8 40 =
     Inr (u ''['' @ replicate 15 FULL_BLOCK @ replicate 25 LIGHT_SHADE @ u ''] '' @ u '' 37%'')
   \<and> (3 * 40) div 8 = (15::int) \<and> (3 * 100) div 8 = (37::int)"
  by (simp add: draw_progress_bar_def py_floordiv_def py_repeat_def fmt_d_def py_str_int_def
      digits_nat.simps digit_char_def u_def)


end
